theory Spec2Isabelle
  imports Complex_Main
begin

section \<open>Platform model\<close>

text \<open>
  The package \<^verbatim>\<open>svc\<close> (file \<^verbatim>\<open>mage-svc.go\<close>) manages one local process through a
  pid file. Its functions are embedded as state-passing functions on a \<open>world\<close>: the
  files, the cached result of \<^verbatim>\<open>unix.Sysinfo\<close>, and the trace of the platform calls made
  so far. What the operating system answers is not under the control of the package, so
  it is a parameter: the record \<open>platform\<close> holds one oracle per platform call, indexed
  by the number of platform calls already made (the length of the trace). Theorems that
  quantify over the world hold for every behaviour of the operating system.

  Times are integers (nanoseconds); durations are Go's \<^verbatim>\<open>time.Duration\<close>, an
  \<^verbatim>\<open>int64\<close> of nanoseconds on which \<^verbatim>\<open>Time.Sub\<close> saturates. \<^verbatim>\<open>Duration.Seconds\<close> and the
  conversion \<^verbatim>\<open>float64(sys.Uptime)\<close> compute in IEEE 754 double precision, with every
  operation rounded to the nearest double.
\<close>

datatype error =
    ErrNotReady
  | Errorf string
  | Canceled
  | DeadlineExceeded
  | SysErr string

datatype signal = Signal0 | SIGKILL

datatype event =
    EvSysinfo
  | EvFindProcess int
  | EvKill int signal
  | EvWait int
  | EvProbe nat "error option"
  | EvSleep
  | EvMkdirAll string
  | EvCmdStart
  | EvWriteFile string string
  | EvRemoveAll string

text \<open>
  A file as \<^verbatim>\<open>getPIDFile\<close> can meet it: absent, present but failing at
  \<^verbatim>\<open>os.Open\<close>, at \<^verbatim>\<open>File.Stat\<close> or at \<^verbatim>\<open>ioutil.ReadAll\<close> (the modification time is
  known by then), or readable with a modification time and contents.
\<close>

datatype file_state =
    Missing
  | Unopenable
  | Unstatable
  | Unreadable int
  | Regular int string

record platform =
  clock :: "nat \<Rightarrow> int"
  Sysinfo_res :: "nat \<Rightarrow> error + int"
  FindProcess_res :: "nat \<Rightarrow> int \<Rightarrow> error option"
  Kill_res :: "nat \<Rightarrow> int \<Rightarrow> signal \<Rightarrow> error option"
  Wait_res :: "nat \<Rightarrow> int \<Rightarrow> error option"
  CmdStart_res :: "nat \<Rightarrow> error + int"
  WriteFile_res :: "nat \<Rightarrow> error option"
  RemoveAll_res :: "nat \<Rightarrow> error option"

record world =
  env :: platform
  fs :: "string \<Rightarrow> file_state"
  getSysinfoOnce :: bool
  sysinfo_Uptime :: int
  sysinfoErr :: "error option"
  trace :: "event list"

definition tick :: "world \<Rightarrow> nat" where
  "tick w = length (trace w)"

definition emit :: "event \<Rightarrow> world \<Rightarrow> world" where
  "emit e w = w\<lparr>trace := trace w @ [e]\<rparr>"

text \<open>A context answers \<^verbatim>\<open>ctx.Err()\<close>; a check is a function of the context and of the
  moment it is called at, as the built-in dial and HTTP checks only observe the network.\<close>

type_synonym Context = "nat \<Rightarrow> error option"

type_synonym check_fn = "Context \<Rightarrow> nat \<Rightarrow> error option"

subsection \<open>Time\<close>

definition zero_time :: int where
  "zero_time = - 62135596800 * 1000000000"

definition maxDuration :: int where
  "maxDuration = 2 ^ 63 - 1"

definition minDuration :: int where
  "minDuration = - (2 ^ 63)"

definition Now :: "world \<Rightarrow> int" where
  "Now w = clock (env w) (tick w)"

definition Sub :: "int \<Rightarrow> int \<Rightarrow> int" where
  "Sub t u = (let d = t - u in
     if d < minDuration then minDuration
     else if maxDuration < d then maxDuration
     else d)"

definition Since :: "world \<Rightarrow> int \<Rightarrow> int" where
  "Since w t = Sub (Now w) t"

subsection \<open>float64\<close>

text \<open>
  A finite \<^verbatim>\<open>float64\<close> is the rational it denotes. \<open>float64 x\<close> rounds a rational to the
  nearest double, ties to the even significand: a double has 53 significant bits, so
  with \<open>2 ^ e \<le> \<bar>x\<bar> < 2 ^ (e + 1)\<close> the doubles near \<open>x\<close> are the multiples of
  \<open>2 ^ (e - 52)\<close>, and below \<open>2 ^ - 1022\<close> (the subnormal range) the multiples of
  \<open>2 ^ - 1074\<close>. Overflow to infinity is left out: every value rounded here is at most
  \<open>2 ^ 63\<close> in magnitude.

  The rounding works on the numerator and the denominator of \<open>x\<close>: \<open>bits k\<close> is the
  length of the binary numeral of \<open>k\<close>; \<open>exponent a q\<close> is the \<open>e\<close> above for \<open>a / q\<close>;
  \<open>round_even num den\<close> is the integer nearest to \<open>num / den\<close>, the even one of two
  equally near.
\<close>

definition pow2 :: "int \<Rightarrow> rat" where
  "pow2 e = (if 0 \<le> e then of_int (2 ^ nat e) else 1 / of_int (2 ^ nat (- e)))"

function bits :: "int \<Rightarrow> int" where
  "bits k = (if k \<le> 0 then 0 else 1 + bits (k div 2))"
  by pat_completeness auto
termination
  by (relation "measure nat") auto

declare bits.simps [simp del]

definition exponent :: "int \<Rightarrow> int \<Rightarrow> int" where
  "exponent a q =
     (let e0 = bits a - bits q
      in if (if 0 \<le> e0 then 2 ^ nat e0 * q \<le> a else q \<le> 2 ^ nat (- e0) * a)
         then e0 else e0 - 1)"

definition round_even :: "int \<Rightarrow> int \<Rightarrow> int" where
  "round_even num den =
     (let f = num div den; r = num mod den
      in if 2 * r < den then f
         else if den < 2 * r then f + 1
         else if even f then f else f + 1)"

definition float64 :: "rat \<Rightarrow> rat" where
  "float64 x =
     (case quotient_of x of
        (p, q) \<Rightarrow>
          if p = 0 then 0
          else
            (let a = \<bar>p\<bar>;
                 u = max (exponent a q) (- 1022) - 52;
                 m = (if 0 \<le> u then round_even a (q * 2 ^ nat u)
                      else round_even (a * 2 ^ nat (- u)) q)
             in of_int (sgn p * m) * pow2 u))"

text \<open>Go's integer quotient \<^verbatim>\<open>/\<close> rounds towards zero, and the remainder \<^verbatim>\<open>%\<close> goes with
  it: \<^verbatim>\<open>a == (a / b) * b + a % b\<close>.\<close>

definition quo :: "int \<Rightarrow> int \<Rightarrow> int" where
  "quo a b = (if (a < 0) = (b < 0) then \<bar>a\<bar> div \<bar>b\<bar> else - (\<bar>a\<bar> div \<bar>b\<bar>))"

definition rem :: "int \<Rightarrow> int \<Rightarrow> int" where
  "rem a b = a - quo a b * b"

text \<open>
  \<^verbatim>\<open>Duration.Seconds\<close>:
  \<^verbatim>\<open>sec := d / Second; nsec := d % Second; return float64(sec) + float64(nsec)/1e9\<close>.
\<close>

definition Seconds :: "int \<Rightarrow> rat" where
  "Seconds d =
     float64 (float64 (of_int (quo d 1000000000))
              + float64 (float64 (of_int (rem d 1000000000)) / 1000000000))"

subsection \<open>strconv\<close>

definition digit_chars :: string where
  "digit_chars = ''0123456789''"

fun digits :: "nat \<Rightarrow> string" where
  "digits n = (if n < 10 then [digit_chars ! n] else digits (n div 10) @ [digit_chars ! (n mod 10)])"

declare digits.simps [simp del]

definition Itoa :: "int \<Rightarrow> string" where
  "Itoa i = (if i < 0 then CHR ''-'' # digits (nat (- i)) else digits (nat i))"

definition digit_val :: "char \<Rightarrow> nat option" where
  "digit_val c = (let k = (of_char c :: nat) in
     if 48 \<le> k \<and> k \<le> 57 then Some (k - 48) else None)"

fun parse_digits :: "nat \<Rightarrow> string \<Rightarrow> nat option" where
  "parse_digits acc [] = Some acc"
| "parse_digits acc (c # cs) =
     (case digit_val c of
        None \<Rightarrow> None
      | Some d \<Rightarrow> parse_digits (acc * 10 + d) cs)"

text \<open>\<^verbatim>\<open>strconv.Atoi\<close>: an optional sign, then at least one decimal digit and nothing else;
  a value outside the 64-bit \<^verbatim>\<open>int\<close> is a range error.\<close>

definition Atoi :: "string \<Rightarrow> error + int" where
  "Atoi s =
     (let neg = (s \<noteq> [] \<and> hd s = CHR ''-'');
          body = (if s \<noteq> [] \<and> (hd s = CHR ''-'' \<or> hd s = CHR ''+'') then tl s else s)
      in if body = [] then Inl (SysErr ''strconv.Atoi: invalid syntax'')
         else case parse_digits 0 body of
                None \<Rightarrow> Inl (SysErr ''strconv.Atoi: invalid syntax'')
              | Some n \<Rightarrow>
                  (let v = (if neg then - int n else int n) in
                   if v < - (2 ^ 63) \<or> 2 ^ 63 - 1 < v
                   then Inl (SysErr ''strconv.Atoi: value out of range'')
                   else Inr v))"

subsection \<open>os.Process\<close>

text \<open>
  A process handle is its \<^verbatim>\<open>Pid\<close> field. On Unix \<^verbatim>\<open>Process.Release\<close> sets the field to
  \<open>-1\<close> and returns nil; \<^verbatim>\<open>Process.Signal\<close> refuses a handle whose \<^verbatim>\<open>Pid\<close> is \<open>-1\<close>
  (released) or \<open>0\<close> (not initialised) before any system call, and \<^verbatim>\<open>Process.Wait\<close>
  refuses a released handle. Go hands the handle around as a pointer; here
  \<open>Release\<close> returns the handle as it is afterwards.
\<close>

record process =
  Pid :: int

definition FindProcess :: "int \<Rightarrow> world \<Rightarrow> (error + process) \<times> world" where
  "FindProcess pid w =
     (case FindProcess_res (env w) (tick w) pid of
        Some e \<Rightarrow> (Inl e, emit (EvFindProcess pid) w)
      | None \<Rightarrow> (Inr \<lparr>Pid = pid\<rparr>, emit (EvFindProcess pid) w))"

definition Signal :: "process \<Rightarrow> signal \<Rightarrow> world \<Rightarrow> error option \<times> world" where
  "Signal ps sig w =
     (if Pid ps = - 1 then (Some (SysErr ''os: process already released''), w)
      else if Pid ps = 0 then (Some (SysErr ''os: process not initialized''), w)
      else (Kill_res (env w) (tick w) (Pid ps) sig, emit (EvKill (Pid ps) sig) w))"

definition Kill :: "process \<Rightarrow> world \<Rightarrow> error option \<times> world" where
  "Kill ps w = Signal ps SIGKILL w"

definition Wait :: "process \<Rightarrow> world \<Rightarrow> error option \<times> world" where
  "Wait ps w =
     (if Pid ps = - 1 then (Some (SysErr ''invalid argument''), w)
      else (Wait_res (env w) (tick w) (Pid ps), emit (EvWait (Pid ps)) w))"

definition Release :: "process \<Rightarrow> world \<Rightarrow> (error option \<times> process) \<times> world" where
  "Release ps w = ((None, ps\<lparr>Pid := - 1\<rparr>), w)"

subsection \<open>Files\<close>

definition WriteFile :: "string \<Rightarrow> string \<Rightarrow> world \<Rightarrow> error option \<times> world" where
  "WriteFile path data w =
     (case WriteFile_res (env w) (tick w) of
        Some e \<Rightarrow> (Some e, emit (EvWriteFile path data) w)
      | None \<Rightarrow>
          (None, emit (EvWriteFile path data) (w\<lparr>fs := (fs w)(path := Regular (Now w) data)\<rparr>)))"

definition RemoveAll :: "string \<Rightarrow> world \<Rightarrow> world" where
  "RemoveAll path w =
     (case RemoveAll_res (env w) (tick w) of
        Some e \<Rightarrow> emit (EvRemoveAll path) w
      | None \<Rightarrow> emit (EvRemoveAll path) (w\<lparr>fs := (fs w)(path := Missing)\<rparr>))"

definition MkdirAll :: "string \<Rightarrow> world \<Rightarrow> world" where
  "MkdirAll path w = emit (EvMkdirAll path) w"

definition Sleep :: "world \<Rightarrow> world" where
  "Sleep w = emit EvSleep w"

section \<open>The service\<close>

record config =
  name :: string
  pidFile :: string
  run_name :: string
  run_args :: "string list"
  run_env :: "string list"
  run_dir :: string
  checks :: "check_fn list"

definition getPIDFile :: "config \<Rightarrow> world \<Rightarrow> (int \<times> int) \<times> world" where
  "getPIDFile cfg w =
     (case fs w (pidFile cfg) of
        Missing \<Rightarrow> ((0, zero_time), w)
      | Unopenable \<Rightarrow> ((0, zero_time), w)
      | Unstatable \<Rightarrow> ((0, zero_time), w)
      | Unreadable mtime \<Rightarrow> ((0, mtime), w)
      | Regular mtime data \<Rightarrow>
          (case Atoi data of
             Inl e \<Rightarrow> ((0, mtime), w)
           | Inr pid \<Rightarrow> ((pid, mtime), w)))"

definition getSysinfo :: "world \<Rightarrow> (int \<times> error option) \<times> world" where
  "getSysinfo w =
     (if getSysinfoOnce w then ((sysinfo_Uptime w, sysinfoErr w), w)
      else
        (case Sysinfo_res (env w) (tick w) of
           Inl e \<Rightarrow>
             ((sysinfo_Uptime w, Some e),
              emit EvSysinfo (w\<lparr>getSysinfoOnce := True, sysinfoErr := Some e\<rparr>))
         | Inr up \<Rightarrow>
             ((up, None),
              emit EvSysinfo (w\<lparr>getSysinfoOnce := True, sysinfo_Uptime := up, sysinfoErr := None\<rparr>))))"

definition getProcessByPID :: "int \<Rightarrow> int \<Rightarrow> world \<Rightarrow> process option \<times> world" where
  "getProcessByPID pid start w =
     (case getSysinfo w of
        ((uptime, err), w1) \<Rightarrow>
          if err = None \<and> float64 (of_int uptime) < Seconds (Since w1 start) then (None, w1)
          else
            (case FindProcess pid w1 of
               (Inl e, w2) \<Rightarrow> (None, w2)
             | (Inr ps, w2) \<Rightarrow>
                 (case Signal ps Signal0 w2 of
                    (Some e, w3) \<Rightarrow> (None, w3)
                  | (None, w3) \<Rightarrow> (Some ps, w3))))"

definition getProcess :: "config \<Rightarrow> world \<Rightarrow> process option \<times> world" where
  "getProcess cfg w =
     (case getPIDFile cfg w of
        ((pid, mtime), w1) \<Rightarrow>
          if pid < 2 then (None, w1) else getProcessByPID pid mtime w1)"

definition running :: "config \<Rightarrow> world \<Rightarrow> bool \<times> world" where
  "running cfg w = (case getProcess cfg w of (ps, w1) \<Rightarrow> (ps \<noteq> None, w1))"


subsection \<open>The wait-for-ready loop\<close>

text \<open>
  The inner \<^verbatim>\<open>for i, check := range cfg.checks\<close> of \<^verbatim>\<open>check\<close>: \<open>i\<close> is the index of the
  head of the remaining checks. \<open>Inl\<close> is the early \<^verbatim>\<open>return err\<close> of the \<^verbatim>\<open>default\<close>
  case. \<^verbatim>\<open>check\<close> makes \<open>ready\<close> as long as \<^verbatim>\<open>cfg.checks\<close>, so \<open>ready ! i\<close> is in range.
\<close>

definition run_check :: "check_fn \<Rightarrow> nat \<Rightarrow> Context \<Rightarrow> world \<Rightarrow> error option \<times> world" where
  "run_check c i ctx w = (c ctx (tick w), emit (EvProbe i (c ctx (tick w))) w)"

fun range_checks ::
  "Context \<Rightarrow> check_fn list \<Rightarrow> nat \<Rightarrow> bool list \<Rightarrow> int \<Rightarrow> world
     \<Rightarrow> (error + bool list \<times> int) \<times> world" where
  "range_checks ctx [] i ready unready w = (Inr (ready, unready), w)"
| "range_checks ctx (c # cs) i ready unready w =
     (if ready ! i then range_checks ctx cs (Suc i) ready unready w
      else
        (case run_check c i ctx w of
           (None, w1) \<Rightarrow> range_checks ctx cs (Suc i) (ready[i := True]) (unready - 1) w1
         | (Some ErrNotReady, w1) \<Rightarrow> range_checks ctx cs (Suc i) ready unready w1
         | (Some e, w1) \<Rightarrow> (Inl e, w1)))"

text \<open>
  The outer \<^verbatim>\<open>for\<close> of \<^verbatim>\<open>check\<close> has no bound of its own: the first argument is fuel,
  one unit per round, and \<open>None\<close> is the loop still running when the fuel is spent.
\<close>

fun check_loop ::
  "nat \<Rightarrow> config \<Rightarrow> Context \<Rightarrow> process \<Rightarrow> bool list \<Rightarrow> int \<Rightarrow> world
     \<Rightarrow> (error option \<times> world) option" where
  "check_loop 0 cfg ctx ps ready unready w = None"
| "check_loop (Suc n) cfg ctx ps ready unready w =
     (case ctx (tick w) of
        Some err \<Rightarrow> Some (Some err, w)
      | None \<Rightarrow>
          (case range_checks ctx (checks cfg) 0 ready unready w of
             (Inl err, w1) \<Rightarrow> Some (Some err, w1)
           | (Inr (ready1, unready1), w1) \<Rightarrow>
               if unready1 < 1 then Some (None, w1)
               else
                 (case Signal ps Signal0 (Sleep w1) of
                    (Some err, w2) \<Rightarrow>
                      Some (Some (Errorf (''process '' @ Itoa (Pid ps)
                                            @ '' exited before checks were satisfied'')), w2)
                  | (None, w2) \<Rightarrow> check_loop n cfg ctx ps ready1 unready1 w2)))"

definition check :: "nat \<Rightarrow> config \<Rightarrow> Context \<Rightarrow> world \<Rightarrow> (error option \<times> world) option" where
  "check n cfg ctx w =
     (case getProcess cfg w of
        (None, w1) \<Rightarrow> Some (Some (Errorf ''process exited before starting checks''), w1)
      | (Some ps, w1) \<Rightarrow>
          check_loop n cfg ctx ps
            (replicate (length (checks cfg)) False) (int (length (checks cfg))) w1)"

text \<open>
  The same loop run for at most \<open>n\<close> rounds, keeping what \<open>check_loop\<close> drops when the
  fuel is spent: \<open>Inl\<close> is what the loop returned, \<open>Inr\<close> is the loop still going, with
  its variables \<^verbatim>\<open>ready\<close> and \<^verbatim>\<open>unready\<close> and the world at the top of the next round.
\<close>

fun check_rounds ::
  "nat \<Rightarrow> config \<Rightarrow> Context \<Rightarrow> process \<Rightarrow> bool list \<Rightarrow> int \<Rightarrow> world
     \<Rightarrow> (error option \<times> world) + (bool list \<times> int \<times> world)" where
  "check_rounds 0 cfg ctx ps ready unready w = Inr (ready, unready, w)"
| "check_rounds (Suc n) cfg ctx ps ready unready w =
     (case ctx (tick w) of
        Some err \<Rightarrow> Inl (Some err, w)
      | None \<Rightarrow>
          (case range_checks ctx (checks cfg) 0 ready unready w of
             (Inl err, w1) \<Rightarrow> Inl (Some err, w1)
           | (Inr (ready1, unready1), w1) \<Rightarrow>
               if unready1 < 1 then Inl (None, w1)
               else
                 (case Signal ps Signal0 (Sleep w1) of
                    (Some err, w2) \<Rightarrow>
                      Inl (Some (Errorf (''process '' @ Itoa (Pid ps)
                                            @ '' exited before checks were satisfied'')), w2)
                  | (None, w2) \<Rightarrow> check_rounds n cfg ctx ps ready1 unready1 w2)))"

subsection \<open>start, stop, Status\<close>

definition kill :: "config \<Rightarrow> process \<Rightarrow> world \<Rightarrow> error option \<times> world" where
  "kill cfg ps w =
     (case Kill ps w of
        (Some err, w1) \<Rightarrow> (Some err, w1)
      | (None, w1) \<Rightarrow> Wait ps w1)"

text \<open>\<^verbatim>\<open>exec.Cmd.Start\<close>: the platform answers with an error or with the pid of the new
  process, which becomes \<^verbatim>\<open>cmd.Process\<close>.\<close>

definition Cmd_Start :: "config \<Rightarrow> world \<Rightarrow> (error + process) \<times> world" where
  "Cmd_Start cfg w =
     (case CmdStart_res (env w) (tick w) of
        Inl e \<Rightarrow> (Inl e, emit EvCmdStart w)
      | Inr pid \<Rightarrow> (Inr \<lparr>Pid = pid\<rparr>, emit EvCmdStart w))"

text \<open>
  \<^verbatim>\<open>start\<close>. The directory of the pid file is made with \<^verbatim>\<open>os.MkdirAll\<close>, whose result the
  source drops; \<^verbatim>\<open>filepath.Dir\<close> never returns the empty string, so that call is always
  made, and it is logged under the path of the pid file. The pid is rendered before
  \<^verbatim>\<open>Release\<close>; every \<^verbatim>\<open>cfg.kill(cmd.Process)\<close> after \<^verbatim>\<open>Release\<close> acts on the released handle.
\<close>

definition start :: "nat \<Rightarrow> config \<Rightarrow> Context \<Rightarrow> world \<Rightarrow> (error option \<times> world) option" where
  "start n cfg ctx w =
     (case running cfg w of
        (True, w1) \<Rightarrow> check n cfg ctx w1
      | (False, w1) \<Rightarrow>
          (case Cmd_Start cfg (if run_dir cfg \<noteq> [] then MkdirAll (run_dir cfg) w1 else w1) of
             (Inl err, w2) \<Rightarrow> Some (Some err, w2)
           | (Inr ps, w2) \<Rightarrow>
               (case WriteFile (pidFile cfg) (Itoa (Pid ps)) (MkdirAll (pidFile cfg) w2) of
                  (Some err, w3) \<Rightarrow> Some (Some err, snd (kill cfg ps w3))
                | (None, w3) \<Rightarrow>
                    (case Release ps w3 of
                       ((Some err, ps1), w4) \<Rightarrow> Some (Some err, snd (kill cfg ps1 w4))
                     | ((None, ps1), w4) \<Rightarrow>
                         (case check n cfg ctx w4 of
                            None \<Rightarrow> None
                          | Some (Some err, w5) \<Rightarrow> Some (Some err, snd (kill cfg ps1 w5))
                          | Some (None, w5) \<Rightarrow> Some (None, w5))))))"

definition stop :: "config \<Rightarrow> Context \<Rightarrow> world \<Rightarrow> error option \<times> world" where
  "stop cfg ctx w =
     (case getProcess cfg w of
        (None, w1) \<Rightarrow> (None, RemoveAll (pidFile cfg) w1)
      | (Some ps, w1) \<Rightarrow>
          (case Kill ps w1 of
             (Some err, w2) \<Rightarrow> (Some err, w2)
           | (None, w2) \<Rightarrow> (None, RemoveAll (pidFile cfg) (snd (Wait ps w2)))))"

record Status =
  Name :: string
  PID :: int
  Started :: int
  Running :: bool
  Ready :: bool

definition Status :: "nat \<Rightarrow> config \<Rightarrow> Context \<Rightarrow> world \<Rightarrow> (Status \<times> world) option" where
  "Status n cfg ctx w =
     (case getPIDFile cfg w of
        ((pid, mtime), w1) \<Rightarrow>
          (let nfo = \<lparr>Name = name cfg, PID = pid, Started = mtime, Running = False, Ready = False\<rparr>
           in if PID nfo = 0 then Some (nfo, w1)
              else
                (case getProcessByPID (PID nfo) (Started nfo) w1 of
                   (ps, w2) \<Rightarrow>
                     (let nfo1 = nfo\<lparr>Running := (ps \<noteq> None)\<rparr>
                      in if \<not> Running nfo1 then Some (nfo1, w2)
                         else
                           (case check n cfg ctx w2 of
                              None \<Rightarrow> None
                            | Some (Some err, w3) \<Rightarrow> Some (nfo1, w3)
                            | Some (None, w3) \<Rightarrow> Some (nfo1\<lparr>Ready := True\<rparr>, w3))))))"


section \<open>Observations\<close>

text \<open>The result and the final world of a run that returned, and the platform calls made
  between two worlds of one run.\<close>

definition outcome :: "('a \<times> world) option \<Rightarrow> 'a option" where
  "outcome x = map_option fst x"

definition final :: "('a \<times> world) option \<Rightarrow> world" where
  "final x = snd (the x)"

definition new_events :: "world \<Rightarrow> world \<Rightarrow> event list" where
  "new_events w w' = drop (length (trace w)) (trace w')"

text \<open>What \<^verbatim>\<open>Status\<close> makes of the result of \<^verbatim>\<open>check\<close> for a running process: ready exactly
  when \<^verbatim>\<open>check\<close> returned nil, in the world \<^verbatim>\<open>check\<close> left.\<close>

definition report :: "config \<Rightarrow> int \<Rightarrow> int \<Rightarrow> error option \<times> world \<Rightarrow> Status \<times> world" where
  "report cfg pid mtime x =
     (\<lparr>Name = name cfg, PID = pid, Started = mtime, Running = True, Ready = (fst x = None)\<rparr>,
      snd x)"

text \<open>The place of the first occurrence of an event in a trace.\<close>

definition position :: "event \<Rightarrow> event list \<Rightarrow> nat" where
  "position e es = length (takeWhile (\<lambda>x. x \<noteq> e) es)"

text \<open>\<^verbatim>\<open>Status\<close> called \<open>k\<close> times in a row, each call on the world the previous one left.\<close>

fun Status_repeat :: "nat \<Rightarrow> nat \<Rightarrow> config \<Rightarrow> Context \<Rightarrow> world \<Rightarrow> world option" where
  "Status_repeat 0 n cfg ctx w = Some w"
| "Status_repeat (Suc k) n cfg ctx w =
     (case Status n cfg ctx w of
        None \<Rightarrow> None
      | Some (nfo, w1) \<Rightarrow> Status_repeat k n cfg ctx w1)"

text \<open>
  Kinds of platform calls. \<open>resolving\<close>: what liveness resolution may do (the uptime query,
  \<^verbatim>\<open>os.FindProcess\<close>, the zero signal). \<open>watching\<close>: those and what the wait loop adds
  (running a check, sleeping); launching, writing, removing, killing and waiting are not
  among them. \<open>probing\<close>: running a check or sleeping.
\<close>

fun resolving :: "event \<Rightarrow> bool" where
  "resolving EvSysinfo = True"
| "resolving (EvFindProcess pid) = True"
| "resolving (EvKill pid sig) = (sig = Signal0)"
| "resolving e = False"

fun watching :: "event \<Rightarrow> bool" where
  "watching EvSysinfo = True"
| "watching (EvFindProcess pid) = True"
| "watching (EvKill pid sig) = (sig = Signal0)"
| "watching (EvProbe i r) = True"
| "watching EvSleep = True"
| "watching e = False"

fun probing :: "event \<Rightarrow> bool" where
  "probing (EvProbe i r) = True"
| "probing EvSleep = True"
| "probing e = False"

text \<open>
  Reading the checks off a trace: the index of the check an event ran, the index of a
  check that reported success, and the error of a check that failed hard (anything but
  nil and \<^verbatim>\<open>ErrNotReady\<close>). In a trace that \<open>skips_satisfied\<close>, no check runs again after it
  has reported success; \<open>all_succeeded L\<close> holds when each of the checks \<open>0..<L\<close> has
  reported success somewhere in the trace.
\<close>

fun probe_index :: "event \<Rightarrow> nat option" where
  "probe_index (EvProbe i r) = Some i"
| "probe_index e = None"

fun succeeded :: "event \<Rightarrow> nat option" where
  "succeeded (EvProbe i None) = Some i"
| "succeeded e = None"

fun hard_error :: "event \<Rightarrow> error option" where
  "hard_error (EvProbe i (Some err)) = (if err = ErrNotReady then None else Some err)"
| "hard_error e = None"

fun skips_satisfied :: "event list \<Rightarrow> bool" where
  "skips_satisfied [] = True"
| "skips_satisfied (e # es) =
     ((case succeeded e of None \<Rightarrow> True | Some i \<Rightarrow> Some i \<notin> set (map probe_index es))
      \<and> skips_satisfied es)"

definition all_succeeded :: "nat \<Rightarrow> event list \<Rightarrow> bool" where
  "all_succeeded L es = list_all (\<lambda>i. EvProbe i None \<in> set es) [0..<L]"

subsection \<open>Invariants of the wait loop\<close>

text \<open>
  \<open>extends P w w'\<close>: the run from \<open>w\<close> to \<open>w'\<close> only added platform calls of kind \<open>P\<close>.
  \<open>loop_inv\<close> relates the variables \<^verbatim>\<open>ready\<close> and \<^verbatim>\<open>unready\<close> of \<^verbatim>\<open>check\<close> to the events of
  the loop so far; \<open>aborted\<close> describes the events when a check has just failed hard;
  \<open>loop_post\<close> is what holds of the result and the events when the loop returns.
\<close>

definition extends :: "(event \<Rightarrow> bool) \<Rightarrow> world \<Rightarrow> world \<Rightarrow> bool" where
  "extends P w w' = (\<exists>es. trace w' = trace w @ es \<and> list_all P es)"

definition loop_inv :: "nat \<Rightarrow> bool list \<Rightarrow> int \<Rightarrow> event list \<Rightarrow> bool" where
  "loop_inv L ready unready es =
     (length ready = L
      \<and> (\<forall>i<L. ready ! i = (EvProbe i None \<in> set es))
      \<and> unready = int (card {i. i < L \<and> \<not> ready ! i})
      \<and> skips_satisfied es
      \<and> (\<forall>e\<in>set es. hard_error e = None))"

definition aborted :: "nat \<Rightarrow> error \<Rightarrow> event list \<Rightarrow> bool" where
  "aborted L err es =
     (\<exists>es0 j. es = es0 @ [EvProbe j (Some err)] \<and> err \<noteq> ErrNotReady \<and> j < L
        \<and> EvProbe j None \<notin> set es0 \<and> skips_satisfied es0
        \<and> (\<forall>e\<in>set es0. hard_error e = None))"

definition loop_post :: "nat \<Rightarrow> error option \<Rightarrow> event list \<Rightarrow> bool" where
  "loop_post L r es =
     (skips_satisfied es
      \<and> (r = None \<longrightarrow> all_succeeded L es)
      \<and> (L \<noteq> 0 \<longrightarrow> all_succeeded L es \<longrightarrow> r = None)
      \<and> (\<forall>e\<in>set es. hard_error e \<noteq> None \<longrightarrow> r = hard_error e \<and> last es = e))"

section \<open>Example systems\<close>

text \<open>
  \<open>linux\<close> is a platform on which every call succeeds: the clock starts five seconds
  after the epoch and advances by a nanosecond per platform call, the system has been up
  for an hour, every pid answers signals, and \<^verbatim>\<open>exec.Cmd.Start\<close> yields pid 100. \<open>boot\<close> is
  a fresh run of the program on given files.
\<close>

definition linux :: platform where
  "linux = \<lparr>clock = (\<lambda>k. 5000000000 + int k), Sysinfo_res = (\<lambda>k. Inr 3600),
     FindProcess_res = (\<lambda>k pid. None), Kill_res = (\<lambda>k pid sig. None),
     Wait_res = (\<lambda>k pid. None), CmdStart_res = (\<lambda>k. Inr 100),
     WriteFile_res = (\<lambda>k. None), RemoveAll_res = (\<lambda>k. None)\<rparr>"

definition boot :: "platform \<Rightarrow> (string \<Rightarrow> file_state) \<Rightarrow> world" where
  "boot p f = \<lparr>env = p, fs = f, getSysinfoOnce = False, sysinfo_Uptime = 0,
     sysinfoErr = None, trace = []\<rparr>"

definition svc :: "check_fn list \<Rightarrow> config" where
  "svc cs = \<lparr>name = ''svc'', pidFile = ''svc.pid'', run_name = ''srv'', run_args = [],
     run_env = [], run_dir = [], checks = cs\<rparr>"

definition no_files :: "string \<Rightarrow> file_state" where
  "no_files = (\<lambda>p. Missing)"

definition pid_file :: "int \<Rightarrow> string \<Rightarrow> string \<Rightarrow> file_state" where
  "pid_file mtime data = no_files(''svc.pid'' := Regular mtime data)"

text \<open>Contexts: one that is never done, one that is cancelled from the outset, one whose
  deadline passes at the \<open>d\<close>-th platform call.\<close>

definition background :: Context where
  "background = (\<lambda>k. None)"

definition cancelled :: Context where
  "cancelled = (\<lambda>k. Some Canceled)"

definition deadline :: "nat \<Rightarrow> Context" where
  "deadline d = (\<lambda>k. if k < d then None else Some DeadlineExceeded)"

text \<open>Checks: one that reports not ready until the sixth platform call and succeeds from
  then on, and one that never becomes ready (an HTTP check against a server that keeps
  answering 503).\<close>

definition slow_probe :: check_fn where
  "slow_probe = (\<lambda>ctx k. if k < 6 then Some ErrNotReady else None)"

definition never_ready :: check_fn where
  "never_ready = (\<lambda>ctx k. Some ErrNotReady)"

text \<open>A check that is ready at once, and one that fails hard, as a dial check with a
  malformed address does.\<close>

definition ok_probe :: check_fn where
  "ok_probe = (\<lambda>ctx k. None)"

definition broken_probe :: check_fn where
  "broken_probe = (\<lambda>ctx k. Some (SysErr ''dial tcp: address x: missing port in address''))"

text \<open>
  Platforms: \<open>rebooted\<close> has been up for one second only; on \<open>no_sysinfo\<close> the
  \<^verbatim>\<open>sysinfo\<close> system call fails; \<open>long_up\<close> has been up for \<open>2 ^ 24\<close> seconds and its
  clock stands one nanosecond after that many seconds past the epoch; on \<open>exits_at d\<close> the process with pid 100 exits by itself
  before the \<open>d\<close>-th platform call (signals to it fail from then on) and a command
  started later gets pid 200.
\<close>

definition rebooted :: platform where
  "rebooted = linux\<lparr>Sysinfo_res := (\<lambda>k. Inr 1)\<rparr>"

definition no_sysinfo :: platform where
  "no_sysinfo = linux\<lparr>Sysinfo_res := (\<lambda>k. Inl (SysErr ''sysinfo: bad address''))\<rparr>"

definition long_up :: platform where
  "long_up = linux\<lparr>clock := (\<lambda>k. 16777216000000001), Sysinfo_res := (\<lambda>k. Inr 16777216)\<rparr>"

definition exits_at :: "nat \<Rightarrow> platform" where
  "exits_at d = linux\<lparr>
     Kill_res := (\<lambda>k pid sig. if pid = 100 \<and> d \<le> k then Some (SysErr ''no such process'') else None),
     CmdStart_res := (\<lambda>k. if k < d then Inr 100 else Inr 200)\<rparr>"

section \<open>float64 at work\<close>

text \<open>
  The rounding on known doubles: one tenth and one third, the ties at \<open>2 ^ 53\<close>, the
  largest \<^verbatim>\<open>int64\<close>, and \<^verbatim>\<open>Duration.Seconds\<close> where a nanosecond is and is not lost.
\<close>

lemma float64_examples:
  "float64 (1 / 10) = 3602879701896397 / 36028797018963968"
  "float64 (1 / 3) = 6004799503160661 / 18014398509481984"
  "float64 (- (1 / 3)) = - (6004799503160661 / 18014398509481984)"
  "float64 (of_int (2 ^ 53 + 1)) = 2 ^ 53"
  "float64 (of_int (2 ^ 53 + 3)) = 2 ^ 53 + 4"
  "float64 (of_int 9223372036854775807) = 2 ^ 63"
  "Seconds (- 1500000000) = - 3 / 2"
  "Seconds 16777216000000001 = 16777216"
  "float64 (of_int 16777216) < Seconds 16777216000000002"
  by code_simp+

section \<open>The identity file is only written by start and removed by stop\<close>

lemma emit_fields [simp]:
  "fs (emit e w) = fs w" "env (emit e w) = env w" "trace (emit e w) = trace w @ [e]"
  "getSysinfoOnce (emit e w) = getSysinfoOnce w"
  "sysinfo_Uptime (emit e w) = sysinfo_Uptime w" "sysinfoErr (emit e w) = sysinfoErr w"
  by (simp_all add: emit_def)

lemma getPIDFile_world [simp]: "snd (getPIDFile cfg w) = w"
  by (simp add: getPIDFile_def split: file_state.splits sum.splits)

lemma getSysinfo_fs [simp]: "fs (snd (getSysinfo w)) = fs w"
  by (simp add: getSysinfo_def split: sum.splits)

lemma FindProcess_fs [simp]: "fs (snd (FindProcess pid w)) = fs w"
  by (simp add: FindProcess_def split: option.splits)

lemma Signal_fs [simp]: "fs (snd (Signal ps sig w)) = fs w"
  by (simp add: Signal_def)

lemma Wait_fs [simp]: "fs (snd (Wait ps w)) = fs w"
  by (simp add: Wait_def)

lemma Sleep_fs [simp]: "fs (Sleep w) = fs w"
  by (simp add: Sleep_def)

lemma kill_fs [simp]: "fs (snd (kill cfg ps w)) = fs w"
proof -
  have "fs (snd (Kill ps w)) = fs w" by (simp add: Kill_def)
  then show ?thesis
    by (cases "Kill ps w") (auto simp: kill_def split: option.splits)
qed

lemma getProcessByPID_fs [simp]: "fs (snd (getProcessByPID pid t w)) = fs w"
proof -
  obtain up err w1 where g: "getSysinfo w = ((up, err), w1)"
    by (metis surj_pair)
  then have f1: "fs w1 = fs w" by (metis getSysinfo_fs snd_conv)
  obtain r w2 where f: "FindProcess pid w1 = (r, w2)" by (metis surj_pair)
  then have f2: "fs w2 = fs w1" by (metis FindProcess_fs snd_conv)
  show ?thesis
  proof (cases r)
    case (Inl e)
    with g f f1 f2 show ?thesis by (simp add: getProcessByPID_def)
  next
    case (Inr ps)
    obtain s w3 where sg: "Signal ps Signal0 w2 = (s, w3)" by (metis surj_pair)
    then have "fs w3 = fs w2" by (metis Signal_fs snd_conv)
    with g f f1 f2 Inr sg show ?thesis
      by (simp add: getProcessByPID_def split: option.splits)
  qed
qed

lemma getProcess_fs [simp]: "fs (snd (getProcess cfg w)) = fs w"
proof -
  obtain pid mt w1 where g: "getPIDFile cfg w = ((pid, mt), w1)" by (metis surj_pair)
  then have "w1 = w" by (metis getPIDFile_world snd_conv)
  with g show ?thesis by (simp add: getProcess_def)
qed

lemma run_check_fs [simp]: "fs (snd (run_check c i ctx w)) = fs w"
  by (simp add: run_check_def)

lemma range_checks_fs [simp]: "fs (snd (range_checks ctx cs i ready unready w)) = fs w"
proof (induction cs arbitrary: i ready unready w)
  case Nil
  show ?case by simp
next
  case (Cons c cs)
  show ?case
  proof (cases "ready ! i")
    case True
    then show ?thesis using Cons.IH by simp
  next
    case False
    obtain r w1 where rc: "run_check c i ctx w = (r, w1)" by (metis surj_pair)
    then have f1: "fs w1 = fs w" by (metis run_check_fs snd_conv)
    show ?thesis
    proof (cases r)
      case None
      with False rc f1 Cons.IH show ?thesis by simp
    next
      case (Some e)
      with False rc f1 Cons.IH show ?thesis by (cases e) simp_all
    qed
  qed
qed

lemma check_loop_fs:
  "check_loop n cfg ctx ps ready unready w = Some (r, w') \<Longrightarrow> fs w' = fs w"
proof (induction n arbitrary: ready unready w)
  case 0
  then show ?case by simp
next
  case (Suc n)
  show ?case
  proof (cases "ctx (tick w)")
    case (Some e)
    with Suc.prems show ?thesis by simp
  next
    case None
    obtain rr w1 where rc: "range_checks ctx (checks cfg) 0 ready unready w = (rr, w1)"
      by (metis surj_pair)
    then have f1: "fs w1 = fs w" by (metis range_checks_fs snd_conv)
    show ?thesis
    proof (cases rr)
      case (Inl e)
      with Suc.prems None rc f1 show ?thesis by simp
    next
      case (Inr p)
      obtain ready1 unready1 where p: "p = (ready1, unready1)" by (cases p)
      obtain s w2 where sg: "Signal ps Signal0 (Sleep w1) = (s, w2)" by (metis surj_pair)
      then have f2: "fs w2 = fs w1" by (metis Signal_fs Sleep_fs snd_conv)
      show ?thesis
      proof (cases "unready1 < 1")
        case True
        with Suc.prems None rc Inr p f1 show ?thesis by simp
      next
        case False
        show ?thesis
        proof (cases s)
          case None' : None
          with Suc.prems None rc Inr p False sg
          have "check_loop n cfg ctx ps ready1 unready1 w2 = Some (r, w')" by simp
          then have "fs w' = fs w2" by (rule Suc.IH)
          with f1 f2 show ?thesis by simp
        next
          case (Some e)
          with Suc.prems None rc Inr p False sg f1 f2 show ?thesis by auto
        qed
      qed
    qed
  qed
qed

lemma check_fs: "check n cfg ctx w = Some (r, w') \<Longrightarrow> fs w' = fs w"
proof -
  assume a: "check n cfg ctx w = Some (r, w')"
  obtain p w1 where g: "getProcess cfg w = (p, w1)" by (metis surj_pair)
  then have f1: "fs w1 = fs w" by (metis getProcess_fs snd_conv)
  show ?thesis
  proof (cases p)
    case None
    with a g f1 show ?thesis by (auto simp: check_def)
  next
    case (Some ps)
    with a g have "check_loop n cfg ctx ps (replicate (length (checks cfg)) False) (int (length (checks cfg))) w1 = Some (r, w')"
      by (simp add: check_def)
    then have "fs w' = fs w1" by (rule check_loop_fs)
    with f1 show ?thesis by simp
  qed
qed

lemma Status_fs: "Status n cfg ctx w = Some (nfo, w') \<Longrightarrow> fs w' = fs w"
proof -
  assume a: "Status n cfg ctx w = Some (nfo, w')"
  obtain pid mt w1 where g: "getPIDFile cfg w = ((pid, mt), w1)" by (metis surj_pair)
  then have w1: "w1 = w" by (metis getPIDFile_world snd_conv)
  show ?thesis
  proof (cases "pid = 0")
    case True
    with a g w1 show ?thesis by (auto simp: Status_def)
  next
    case False
    obtain p w2 where gp: "getProcessByPID pid mt w = (p, w2)" by (metis surj_pair)
    then have f2: "fs w2 = fs w" by (metis getProcessByPID_fs snd_conv)
    show ?thesis
    proof (cases p)
      case None
      with a g w1 False gp f2 show ?thesis by (auto simp: Status_def)
    next
      case (Some ps)
      show ?thesis
      proof (cases "check n cfg ctx w2")
        case None
        with a g w1 False gp Some show ?thesis by (simp add: Status_def)
      next
        case Some': (Some q)
        obtain r w3 where q: "q = (r, w3)" by (cases q)
        with Some' have "fs w3 = fs w2" using check_fs by blast
        with a g w1 False gp Some Some' q f2 show ?thesis
          by (cases r) (auto simp: Status_def)
      qed
    qed
  qed
qed


text \<open>
  C7. \<^verbatim>\<open>Status\<close> never creates, modifies or deletes the identity file, however often it
  is called: when \<open>k\<close> calls in a row have returned, every file is as it was before the
  first call.
\<close>

theorem Status_never_mutates_files:
  "Status_repeat k n cfg ctx w = Some w' \<Longrightarrow> fs w' = fs w"
proof (induction k arbitrary: w)
  case 0
  then show ?case by simp
next
  case (Suc k)
  show ?case
  proof (cases "Status n cfg ctx w")
    case None
    with Suc.prems show ?thesis by simp
  next
    case (Some q)
    obtain nfo w1 where q: "q = (nfo, w1)" by (cases q)
    with Some have f1: "fs w1 = fs w" using Status_fs by blast
    from Suc.prems Some q have "Status_repeat k n cfg ctx w1 = Some w'" by simp
    then have "fs w' = fs w1" by (rule Suc.IH)
    with f1 show ?thesis by simp
  qed
qed

theorem Status_never_mutates_files_witness:
  "\<exists>w'. Status_repeat 2 5 (svc [slow_probe]) background
           (boot linux (pid_file 4000000000 ''100'')) = Some w'
        \<and> fs w' = fs (boot linux (pid_file 4000000000 ''100''))"
proof -
  have "\<not> Option.is_none (Status_repeat 2 5 (svc [slow_probe]) background
          (boot linux (pid_file 4000000000 ''100'')))"
    by code_simp
  then obtain w' where h: "Status_repeat 2 5 (svc [slow_probe]) background
          (boot linux (pid_file 4000000000 ''100'')) = Some w'"
    by (auto simp: Option.is_none_def)
  from Status_never_mutates_files [OF h] h show ?thesis by blast
qed

section \<open>Reboot detection\<close>

lemma getSysinfo_env [simp]: "env (snd (getSysinfo w)) = env w"
  by (simp add: getSysinfo_def split: sum.splits)

lemma getSysinfo_cached:
  "getSysinfo (snd (getSysinfo w)) = (fst (getSysinfo w), snd (getSysinfo w))"
  by (simp add: getSysinfo_def emit_def split: sum.splits)

lemma getSysinfo_events:
  "new_events w (snd (getSysinfo w)) = (if getSysinfoOnce w then [] else [EvSysinfo])"
  by (simp add: getSysinfo_def new_events_def split: sum.splits)

text \<open>
  C8, as the code has it. The age of the record is compared with the uptime in
  \<^verbatim>\<open>float64\<close> seconds. A recorded identity with pid at least 2 whose age, as
  \<^verbatim>\<open>Duration.Seconds\<close> computes it, exceeds the uptime that \<^verbatim>\<open>getSysinfo\<close> reports,
  converted to \<^verbatim>\<open>float64\<close>, resolves to no process, in \<^verbatim>\<open>getProcess\<close> as in
  \<^verbatim>\<open>getProcessByPID\<close>, whatever the platform would answer to a signal: the only platform
  call made is the \<^verbatim>\<open>sysinfo\<close> query, and only when it was not made before in this run; a
  second query returns the cached answer without any call.
\<close>

theorem reboot_detected_without_signal:
  assumes "fst (getPIDFile cfg w) = (pid, mtime)" and "2 \<le> pid"
    and "fst (getSysinfo w) = (uptime, None)"
    and "float64 (of_int uptime) < Seconds (Since (snd (getSysinfo w)) mtime)"
  shows "getProcess cfg w = (None, snd (getSysinfo w))
       \<and> getProcessByPID pid mtime w = (None, snd (getSysinfo w))
       \<and> new_events w (snd (getSysinfo w)) = (if getSysinfoOnce w then [] else [EvSysinfo])
       \<and> getSysinfo (snd (getSysinfo w)) = ((uptime, None), snd (getSysinfo w))"
proof -
  obtain w1 where g: "getSysinfo w = ((uptime, None), w1)"
    using assms(3) by (metis prod.collapse)
  with assms(4) have by_pid: "getProcessByPID pid mtime w = (None, w1)"
    by (simp add: getProcessByPID_def)
  have pf: "getPIDFile cfg w = ((pid, mtime), w)"
    using assms(1) getPIDFile_world by (metis prod.collapse)
  with assms(2) by_pid have "getProcess cfg w = (None, w1)"
    by (simp add: getProcess_def)
  moreover have "getSysinfo w1 = ((uptime, None), w1)"
    using getSysinfo_cached [of w] g by simp
  ultimately show ?thesis
    using by_pid g getSysinfo_events [of w] by simp
qed

theorem reboot_detected_without_signal_witness:
  "fst (getPIDFile (svc []) (boot rebooted (pid_file 1000000000 ''100''))) = (100, 1000000000)
   \<and> (2::int) \<le> 100
   \<and> fst (getSysinfo (boot rebooted (pid_file 1000000000 ''100''))) = (1, None)
   \<and> float64 (of_int 1) < Seconds (Since (snd (getSysinfo (boot rebooted (pid_file 1000000000 ''100'')))) 1000000000)
   \<and> fst (getProcess (svc []) (boot rebooted (pid_file 1000000000 ''100''))) = None
   \<and> new_events (boot rebooted (pid_file 1000000000 ''100'')) (snd (getProcess (svc []) (boot rebooted (pid_file 1000000000 ''100'')))) = [EvSysinfo]"
proof -
  have h1: "fst (getPIDFile (svc []) (boot rebooted (pid_file 1000000000 ''100''))) = (100, 1000000000)"
    by code_simp
  have h2: "(2::int) \<le> 100" by simp
  have h3: "fst (getSysinfo (boot rebooted (pid_file 1000000000 ''100''))) = (1, None)"
    by code_simp
  have h4: "float64 (of_int 1) < Seconds (Since (snd (getSysinfo (boot rebooted (pid_file 1000000000 ''100'')))) 1000000000)"
    by code_simp
  have o: "\<not> getSysinfoOnce (boot rebooted (pid_file 1000000000 ''100''))"
    by (simp add: boot_def)
  from reboot_detected_without_signal [OF h1 h2 h3 h4] o h1 h2 h3 h4 show ?thesis
    by simp
qed

text \<open>
  An age that exceeds the uptime by less than \<^verbatim>\<open>float64\<close> resolves is not seen. On
  \<open>long_up\<close> the system has been up for \<open>2 ^ 24\<close> seconds and the record is one
  nanosecond older than that; \<^verbatim>\<open>Duration.Seconds\<close> rounds the age to \<open>2 ^ 24\<close>, the test
  fails, and the recorded pid is looked up and signalled.
\<close>

theorem reboot_by_one_nanosecond_counterexample:
  "fst (getPIDFile (svc []) (boot long_up (pid_file 0 ''100''))) = (100, 0)
   \<and> fst (getSysinfo (boot long_up (pid_file 0 ''100''))) = (16777216, None)
   \<and> 16777216 * 1000000000 < Since (snd (getSysinfo (boot long_up (pid_file 0 ''100'')))) 0
   \<and> Seconds (Since (snd (getSysinfo (boot long_up (pid_file 0 ''100'')))) 0) = float64 (of_int 16777216)
   \<and> fst (getProcess (svc []) (boot long_up (pid_file 0 ''100''))) = Some \<lparr>Pid = 100\<rparr>
   \<and> trace (snd (getProcess (svc []) (boot long_up (pid_file 0 ''100'')))) =
       [EvSysinfo, EvFindProcess 100, EvKill 100 Signal0]"
proof -
  have c1: "fst (getPIDFile (svc []) (boot long_up (pid_file 0 ''100''))) = (100, 0)"
    by code_simp
  have c2: "fst (getSysinfo (boot long_up (pid_file 0 ''100''))) = (16777216, None)"
    by code_simp
  have c3: "16777216 * 1000000000 < Since (snd (getSysinfo (boot long_up (pid_file 0 ''100'')))) 0"
    by code_simp
  have c4: "Seconds (Since (snd (getSysinfo (boot long_up (pid_file 0 ''100'')))) 0) = float64 (of_int 16777216)"
    by code_simp
  have c5: "fst (getProcess (svc []) (boot long_up (pid_file 0 ''100''))) = Some \<lparr>Pid = 100\<rparr>"
    by code_simp
  have c6: "trace (snd (getProcess (svc []) (boot long_up (pid_file 0 ''100'')))) =
       [EvSysinfo, EvFindProcess 100, EvKill 100 Signal0]"
    by code_simp
  show ?thesis
    by (intro conjI c1 c2 c3 c4 c5 c6)
qed

section \<open>A failed uptime query\<close>

text \<open>
  C10. When the uptime query fails, \<^verbatim>\<open>getProcessByPID\<close> does not look at the age of the
  record at all: for a pid of at least 2 the answer is the handle exactly when
  \<^verbatim>\<open>os.FindProcess\<close> and the zero signal succeed, whatever the recorded time is. The error of
  the query is not part of the result.
\<close>

theorem sysinfo_failure_skips_reboot_check:
  assumes "snd (fst (getSysinfo w)) = Some e" and "2 \<le> pid"
  shows "fst (getProcessByPID pid mtime w) =
           (if FindProcess_res (env w) (tick (snd (getSysinfo w))) pid = None
               \<and> Kill_res (env w) (Suc (tick (snd (getSysinfo w)))) pid Signal0 = None
            then Some \<lparr>Pid = pid\<rparr> else None)"
proof -
  obtain up w1 where g: "getSysinfo w = ((up, Some e), w1)"
    using assms(1) by (metis prod.collapse)
  then have e1: "env w1 = env w" by (metis getSysinfo_env snd_conv)
  from assms(2) have p: "pid \<noteq> - 1" "pid \<noteq> 0" by simp_all
  show ?thesis
    using g e1 p
    by (simp add: getProcessByPID_def FindProcess_def Signal_def tick_def
        split: option.splits)
qed

theorem sysinfo_failure_skips_reboot_check_witness:
  "snd (fst (getSysinfo (boot no_sysinfo (pid_file 1000000000 ''100'')))) = Some (SysErr ''sysinfo: bad address'')
   \<and> (2::int) \<le> 100
   \<and> fst (getProcessByPID 100 (- 9000000000000) (boot no_sysinfo (pid_file 1000000000 ''100''))) = Some \<lparr>Pid = 100\<rparr>"
proof -
  have h1: "snd (fst (getSysinfo (boot no_sysinfo (pid_file 1000000000 ''100'')))) = Some (SysErr ''sysinfo: bad address'')"
    by code_simp
  have h2: "(2::int) \<le> 100" by simp
  from sysinfo_failure_skips_reboot_check [OF h1 h2, of "- 9000000000000"] h1 h2 show ?thesis
    by (simp add: boot_def no_sysinfo_def linux_def)
qed


section \<open>What a run may add to the trace\<close>

lemma extends_refl [simp]: "extends P w w"
  by (simp add: extends_def)

lemma extends_trans: "extends P w w1 \<Longrightarrow> extends P w1 w2 \<Longrightarrow> extends P w w2"
  by (auto simp: extends_def)

lemma extends_emit: "P e \<Longrightarrow> extends P w (emit e w)"
  by (simp add: extends_def)

lemma extends_new_events: "extends P w w' \<Longrightarrow> list_all P (new_events w w')"
  by (auto simp: extends_def new_events_def)

lemma extends_mono: "(\<And>e. P e \<Longrightarrow> Q e) \<Longrightarrow> extends P w w' \<Longrightarrow> extends Q w w'"
  by (auto simp: extends_def list_all_iff)

lemma resolving_watching: "resolving e \<Longrightarrow> watching e"
  by (cases e) simp_all

lemma resolving_not_probing: "resolving e \<Longrightarrow> \<not> probing e"
  by (cases e) simp_all

lemma getSysinfo_extends: "extends resolving w (snd (getSysinfo w))"
  by (simp add: getSysinfo_def extends_def split: sum.splits)

lemma FindProcess_extends: "extends resolving w (snd (FindProcess pid w))"
  by (simp add: FindProcess_def extends_def split: option.splits)

lemma Signal0_extends: "extends resolving w (snd (Signal ps Signal0 w))"
  by (simp add: Signal_def extends_def)

lemma getProcessByPID_extends: "extends resolving w (snd (getProcessByPID pid t w))"
proof -
  obtain up err w1 where g: "getSysinfo w = ((up, err), w1)" by (metis surj_pair)
  then have e1: "extends resolving w w1" by (metis getSysinfo_extends snd_conv)
  obtain r w2 where f: "FindProcess pid w1 = (r, w2)" by (metis surj_pair)
  then have "extends resolving w1 w2" by (metis FindProcess_extends snd_conv)
  with e1 have e2: "extends resolving w w2" by (rule extends_trans)
  show ?thesis
  proof (cases r)
    case (Inl e)
    with g f e1 e2 show ?thesis by (simp add: getProcessByPID_def)
  next
    case (Inr ps)
    obtain s w3 where sg: "Signal ps Signal0 w2 = (s, w3)" by (metis surj_pair)
    then have "extends resolving w2 w3" by (metis Signal0_extends snd_conv)
    with e2 have "extends resolving w w3" by (rule extends_trans)
    with g f e1 e2 Inr sg show ?thesis
      by (simp add: getProcessByPID_def split: option.splits)
  qed
qed

lemma getProcess_extends: "extends resolving w (snd (getProcess cfg w))"
proof -
  obtain pid mt w1 where g: "getPIDFile cfg w = ((pid, mt), w1)" by (metis surj_pair)
  then have "w1 = w" by (metis getPIDFile_world snd_conv)
  with g show ?thesis by (simp add: getProcess_def getProcessByPID_extends)
qed

lemma Signal0_watching: "extends watching w (snd (Signal ps Signal0 w))"
  using Signal0_extends resolving_watching by (rule extends_mono [rotated])

lemma getProcess_watching: "extends watching w (snd (getProcess cfg w))"
  using getProcess_extends resolving_watching by (rule extends_mono [rotated])

lemma Sleep_extends: "extends watching w (Sleep w)"
  by (simp add: Sleep_def extends_def)

lemma run_check_extends: "extends watching w (snd (run_check c i ctx w))"
  by (simp add: run_check_def extends_def)

lemma range_checks_extends:
  "extends watching w (snd (range_checks ctx cs i ready unready w))"
proof (induction cs arbitrary: i ready unready w)
  case Nil
  show ?case by simp
next
  case (Cons c cs)
  show ?case
  proof (cases "ready ! i")
    case True
    then show ?thesis using Cons.IH by simp
  next
    case False
    obtain r w1 where rc: "run_check c i ctx w = (r, w1)" by (metis surj_pair)
    then have e1: "extends watching w w1" by (metis run_check_extends snd_conv)
    have step: "\<And>rd un. extends watching w (snd (range_checks ctx cs (Suc i) rd un w1))"
      using e1 Cons.IH extends_trans by blast
    show ?thesis
    proof (cases r)
      case None
      with False rc step show ?thesis by simp
    next
      case (Some e)
      with False rc e1 step show ?thesis by (cases e) simp_all
    qed
  qed
qed

lemma check_loop_extends:
  "check_loop n cfg ctx ps ready unready w = Some (r, w') \<Longrightarrow> extends watching w w'"
proof (induction n arbitrary: ready unready w)
  case 0
  then show ?case by simp
next
  case (Suc n)
  show ?case
  proof (cases "ctx (tick w)")
    case (Some e)
    with Suc.prems show ?thesis by auto
  next
    case None
    obtain rr w1 where rc: "range_checks ctx (checks cfg) 0 ready unready w = (rr, w1)"
      by (metis surj_pair)
    then have e1: "extends watching w w1" by (metis range_checks_extends snd_conv)
    show ?thesis
    proof (cases rr)
      case (Inl e)
      with Suc.prems None rc e1 show ?thesis by auto
    next
      case (Inr p)
      obtain ready1 unready1 where p: "p = (ready1, unready1)" by (cases p)
      obtain s w2 where sg: "Signal ps Signal0 (Sleep w1) = (s, w2)" by (metis surj_pair)
      then have "extends watching (Sleep w1) w2" by (metis Signal0_watching snd_conv)
      with Sleep_extends have "extends watching w1 w2" by (rule extends_trans)
      with e1 have e2: "extends watching w w2" by (rule extends_trans)
      show ?thesis
      proof (cases "unready1 < 1")
        case True
        with Suc.prems None rc Inr p e1 show ?thesis by auto
      next
        case False
        show ?thesis
        proof (cases s)
          case None' : None
          with Suc.prems None rc Inr p False sg
          have "check_loop n cfg ctx ps ready1 unready1 w2 = Some (r, w')" by simp
          then have "extends watching w2 w'" by (rule Suc.IH)
          with e2 show ?thesis by (rule extends_trans)
        next
          case (Some e)
          with Suc.prems None rc Inr p False sg e2 show ?thesis by auto
        qed
      qed
    qed
  qed
qed

lemma check_extends: "check n cfg ctx w = Some (r, w') \<Longrightarrow> extends watching w w'"
proof -
  assume a: "check n cfg ctx w = Some (r, w')"
  obtain p w1 where g: "getProcess cfg w = (p, w1)" by (metis surj_pair)
  then have e1: "extends watching w w1" by (metis getProcess_watching snd_conv)
  show ?thesis
  proof (cases p)
    case None
    with a g e1 show ?thesis by (auto simp: check_def)
  next
    case (Some ps)
    with a g have "check_loop n cfg ctx ps (replicate (length (checks cfg)) False) (int (length (checks cfg))) w1 = Some (r, w')"
      by (simp add: check_def)
    then have "extends watching w1 w'" by (rule check_loop_extends)
    with e1 show ?thesis by (rule extends_trans)
  qed
qed

section \<open>Starting a service that is already running\<close>

text \<open>
  C6, as the code has it. When \<^verbatim>\<open>cfg.running()\<close> holds at the moment \<^verbatim>\<open>start\<close> is called
  (the recorded pid is at least 2, the record is not older than the cached uptime,
  \<^verbatim>\<open>os.FindProcess\<close> and the zero signal succeed), \<^verbatim>\<open>start\<close> is the wait-for-ready loop and
  nothing else: for every fuel it is \<^verbatim>\<open>check\<close> on the world that \<^verbatim>\<open>running\<close> left, so it
  returns when and what \<^verbatim>\<open>check\<close> returns. \<^verbatim>\<open>running\<close> itself only resolves liveness and
  leaves the files alone; and whenever \<^verbatim>\<open>check\<close> returns, every file is as it was and the
  trace has gained only liveness resolution, checks and sleeps: nothing was launched.
\<close>

theorem start_when_running_only_waits:
  assumes "fst (running cfg w) = True"
  shows "start n cfg ctx w = check n cfg ctx (snd (running cfg w))
       \<and> fs (snd (running cfg w)) = fs w
       \<and> list_all resolving (new_events w (snd (running cfg w)))
       \<and> (\<forall>r w'. check n cfg ctx (snd (running cfg w)) = Some (r, w') \<longrightarrow>
             fs w' = fs w \<and> list_all watching (new_events w w')
             \<and> EvCmdStart \<notin> set (new_events w w'))"
proof -
  obtain w1 where rn: "running cfg w = (True, w1)"
    using assms by (metis prod.collapse)
  then have eq: "start n cfg ctx w = check n cfg ctx w1"
    by (simp add: start_def)
  have w1: "w1 = snd (getProcess cfg w)"
    using rn by (simp add: running_def split: prod.splits)
  then have f1: "fs w1 = fs w" and e1: "extends watching w w1" and r1: "extends resolving w w1"
    by (simp_all add: getProcess_watching getProcess_extends)
  have frame: "fs w' = fs w \<and> list_all watching (new_events w w')
             \<and> EvCmdStart \<notin> set (new_events w w')"
    if c: "check n cfg ctx w1 = Some (r, w')" for r w'
  proof -
    from c have "fs w' = fs w1" by (rule check_fs)
    with f1 have f: "fs w' = fs w" by simp
    from c have "extends watching w1 w'" by (rule check_extends)
    with e1 have "extends watching w w'" by (rule extends_trans)
    then have l: "list_all watching (new_events w w')" by (rule extends_new_events)
    then have "EvCmdStart \<notin> set (new_events w w')"
      by (auto simp: list_all_iff)
    with f l show ?thesis by simp
  qed
  from r1 have "list_all resolving (new_events w w1)" by (rule extends_new_events)
  with eq f1 frame rn show ?thesis by simp
qed

theorem start_when_running_only_waits_witness:
  "fst (running (svc [never_ready])
      (final (start 5 (svc [never_ready]) (deadline 8) (boot linux no_files)))) = True
   \<and> start 5 (svc [never_ready]) (deadline 14)
        (final (start 5 (svc [never_ready]) (deadline 8) (boot linux no_files)))
      = check 5 (svc [never_ready]) (deadline 14)
          (snd (running (svc [never_ready])
             (final (start 5 (svc [never_ready]) (deadline 8) (boot linux no_files)))))
   \<and> outcome (start 5 (svc [never_ready]) (deadline 14)
        (final (start 5 (svc [never_ready]) (deadline 8) (boot linux no_files))))
      = Some (Some DeadlineExceeded)
   \<and> new_events (final (start 5 (svc [never_ready]) (deadline 8) (boot linux no_files)))
        (final (start 5 (svc [never_ready]) (deadline 14)
           (final (start 5 (svc [never_ready]) (deadline 8) (boot linux no_files)))))
      = [EvFindProcess 100, EvKill 100 Signal0, EvFindProcess 100, EvKill 100 Signal0,
         EvProbe 0 (Some ErrNotReady), EvSleep, EvKill 100 Signal0]
   \<and> fs (final (start 5 (svc [never_ready]) (deadline 14)
           (final (start 5 (svc [never_ready]) (deadline 8) (boot linux no_files))))) ''svc.pid''
      = Regular 5000000002 ''100''"
proof -
  have h: "fst (running (svc [never_ready])
      (final (start 5 (svc [never_ready]) (deadline 8) (boot linux no_files)))) = True"
    by code_simp
  have c3: "outcome (start 5 (svc [never_ready]) (deadline 14)
        (final (start 5 (svc [never_ready]) (deadline 8) (boot linux no_files))))
      = Some (Some DeadlineExceeded)"
    by code_simp
  have c4: "new_events (final (start 5 (svc [never_ready]) (deadline 8) (boot linux no_files)))
        (final (start 5 (svc [never_ready]) (deadline 14)
           (final (start 5 (svc [never_ready]) (deadline 8) (boot linux no_files)))))
      = [EvFindProcess 100, EvKill 100 Signal0, EvFindProcess 100, EvKill 100 Signal0,
         EvProbe 0 (Some ErrNotReady), EvSleep, EvKill 100 Signal0]"
    by code_simp
  have c5: "fs (final (start 5 (svc [never_ready]) (deadline 14)
           (final (start 5 (svc [never_ready]) (deadline 8) (boot linux no_files))))) ''svc.pid''
      = Regular 5000000002 ''100''"
    by code_simp
  from start_when_running_only_waits [OF h, of 5 "deadline 14"] h c3 c4 c5 show ?thesis
    by blast
qed


text \<open>
  Two calls in a row do not always meet that condition. On \<open>exits_at 6\<close> the first
  \<^verbatim>\<open>start\<close> succeeds and records pid 100; the process then exits by itself and the zero
  signal fails; the second \<^verbatim>\<open>start\<close>, with no \<^verbatim>\<open>stop\<close> in between, launches a second
  process and overwrites the recorded pid with 200.
\<close>

theorem second_start_relaunches_counterexample:
  "outcome (start 5 (svc []) background (boot (exits_at 6) no_files)) = Some None
   \<and> fs (final (start 5 (svc []) background (boot (exits_at 6) no_files))) ''svc.pid'' = Regular 5000000002 ''100''
   \<and> outcome (start 5 (svc []) background (final (start 5 (svc []) background (boot (exits_at 6) no_files)))) = Some None
   \<and> new_events (final (start 5 (svc []) background (boot (exits_at 6) no_files))) (final (start 5 (svc []) background (final (start 5 (svc []) background (boot (exits_at 6) no_files))))) =
       [EvFindProcess 100, EvKill 100 Signal0, EvCmdStart, EvMkdirAll ''svc.pid'',
        EvWriteFile ''svc.pid'' ''200'', EvFindProcess 200, EvKill 200 Signal0]
   \<and> fs (final (start 5 (svc []) background (final (start 5 (svc []) background (boot (exits_at 6) no_files))))) ''svc.pid'' = Regular 5000000010 ''200''"
proof -
  have c1: "outcome (start 5 (svc []) background (boot (exits_at 6) no_files)) = Some None"
    by code_simp
  have c2: "fs (final (start 5 (svc []) background (boot (exits_at 6) no_files))) ''svc.pid'' = Regular 5000000002 ''100''"
    by code_simp
  have c3: "outcome (start 5 (svc []) background (final (start 5 (svc []) background (boot (exits_at 6) no_files)))) = Some None"
    by code_simp
  have c4: "new_events (final (start 5 (svc []) background (boot (exits_at 6) no_files))) (final (start 5 (svc []) background (final (start 5 (svc []) background (boot (exits_at 6) no_files))))) =
       [EvFindProcess 100, EvKill 100 Signal0, EvCmdStart, EvMkdirAll ''svc.pid'',
        EvWriteFile ''svc.pid'' ''200'', EvFindProcess 200, EvKill 200 Signal0]"
    by code_simp
  have c5: "fs (final (start 5 (svc []) background (final (start 5 (svc []) background (boot (exits_at 6) no_files))))) ''svc.pid'' = Regular 5000000010 ''200''"
    by code_simp
  show ?thesis
    by (intro conjI c1 c2 c3 c4 c5)
qed

section \<open>Status and the wait loop\<close>

lemma check_loop_round:
  assumes "ctx (tick w) = None"
    and "range_checks ctx (checks cfg) 0 ready unready w = (Inr (ready1, unready1), w1)"
    and "1 \<le> unready1" and "Signal ps Signal0 (Sleep w1) = (None, w2)"
  shows "check_loop (Suc n) cfg ctx ps ready unready w = check_loop n cfg ctx ps ready1 unready1 w2"
  using assms by simp

lemma pairI: "fst x = a \<Longrightarrow> x = (a, snd x)"
  by (cases x) simp

text \<open>
  C3, as the code has it. With \<open>(pid, mtime)\<close> what \<^verbatim>\<open>getPIDFile\<close> reads and \<open>(ps, w2)\<close>
  what \<^verbatim>\<open>getProcessByPID\<close> answers for it: if the pid is 0, \<^verbatim>\<open>Status\<close> returns at once,
  not running; if the pid does not resolve, \<^verbatim>\<open>Status\<close> returns after the resolution, not
  running, and no check has run and nothing has slept. Only if the pid resolves does
  \<^verbatim>\<open>Status\<close> go on, and what it runs then is \<^verbatim>\<open>check\<close>, the wait-for-ready loop of
  \<^verbatim>\<open>start\<close>: for every fuel \<^verbatim>\<open>Status\<close> returns when \<^verbatim>\<open>check\<close> returns, running, and ready
  exactly when \<^verbatim>\<open>check\<close> returned nil. The checks are polled: when the first round leaves
  a check unsatisfied and the process answers the zero signal after the sleep, the
  answer of \<^verbatim>\<open>Status\<close> is that of the loop going on from there.
\<close>

theorem Status_ready_by_wait_loop:
  assumes "fst (getPIDFile cfg w) = (pid, mtime)"
    and "getProcessByPID pid mtime w = (ps, w2)"
  shows "(pid = 0 \<longrightarrow>
            Status n cfg ctx w =
              Some (\<lparr>Name = name cfg, PID = 0, Started = mtime, Running = False, Ready = False\<rparr>, w))
       \<and> (pid \<noteq> 0 \<and> ps = None \<longrightarrow>
            Status n cfg ctx w =
              Some (\<lparr>Name = name cfg, PID = pid, Started = mtime, Running = False, Ready = False\<rparr>, w2)
            \<and> filter probing (new_events w w2) = [])
       \<and> (pid \<noteq> 0 \<and> ps \<noteq> None \<longrightarrow>
            Status n cfg ctx w = map_option (report cfg pid mtime) (check n cfg ctx w2))
       \<and> (pid \<noteq> 0 \<and> ps \<noteq> None \<and> getProcess cfg w2 = (Some ps1, w3) \<and> ctx (tick w3) = None
            \<and> range_checks ctx (checks cfg) 0 (replicate (length (checks cfg)) False)
                 (int (length (checks cfg))) w3 = (Inr (ready1, unready1), w4)
            \<and> 1 \<le> unready1 \<and> Signal ps1 Signal0 (Sleep w4) = (None, w5) \<longrightarrow>
            Status (Suc m) cfg ctx w =
              map_option (report cfg pid mtime) (check_loop m cfg ctx ps1 ready1 unready1 w5))"
proof -
  have g: "getPIDFile cfg w = ((pid, mtime), w)"
    using assms(1) getPIDFile_world [of cfg w] by (metis prod.collapse)
  have "extends resolving w w2"
    using getProcessByPID_extends [of w pid mtime] assms(2) by simp
  then have "list_all resolving (new_events w w2)" by (rule extends_new_events)
  then have np: "filter probing (new_events w w2) = []"
    by (auto simp: list_all_iff filter_empty_conv resolving_not_probing)
  have c1: "pid = 0 \<longrightarrow>
            Status n cfg ctx w =
              Some (\<lparr>Name = name cfg, PID = 0, Started = mtime, Running = False, Ready = False\<rparr>, w)"
    using g by (simp add: Status_def)
  have c2: "pid \<noteq> 0 \<and> ps = None \<longrightarrow>
            Status n cfg ctx w =
              Some (\<lparr>Name = name cfg, PID = pid, Started = mtime, Running = False, Ready = False\<rparr>, w2)
            \<and> filter probing (new_events w w2) = []"
    using g assms(2) np by (simp add: Status_def)
  have run: "Status k cfg ctx w = map_option (report cfg pid mtime) (check k cfg ctx w2)"
    if "pid \<noteq> 0" and "ps \<noteq> None" for k
  proof (cases "check k cfg ctx w2")
    case None
    with g assms(2) that show ?thesis by (auto simp: Status_def)
  next
    case (Some q)
    obtain r w3 where q: "q = (r, w3)" by (cases q)
    with Some g assms(2) that show ?thesis
      by (cases r) (auto simp: Status_def report_def)
  qed
  then have c3: "pid \<noteq> 0 \<and> ps \<noteq> None \<longrightarrow>
            Status n cfg ctx w = map_option (report cfg pid mtime) (check n cfg ctx w2)"
    by blast
  have c4: "pid \<noteq> 0 \<and> ps \<noteq> None \<and> getProcess cfg w2 = (Some ps1, w3) \<and> ctx (tick w3) = None
            \<and> range_checks ctx (checks cfg) 0 (replicate (length (checks cfg)) False)
                 (int (length (checks cfg))) w3 = (Inr (ready1, unready1), w4)
            \<and> 1 \<le> unready1 \<and> Signal ps1 Signal0 (Sleep w4) = (None, w5) \<longrightarrow>
            Status (Suc m) cfg ctx w =
              map_option (report cfg pid mtime) (check_loop m cfg ctx ps1 ready1 unready1 w5)"
  proof (intro impI, elim conjE)
    assume a: "pid \<noteq> 0" "ps \<noteq> None" "getProcess cfg w2 = (Some ps1, w3)" "ctx (tick w3) = None"
      "range_checks ctx (checks cfg) 0 (replicate (length (checks cfg)) False)
                 (int (length (checks cfg))) w3 = (Inr (ready1, unready1), w4)"
      "1 \<le> unready1" "Signal ps1 Signal0 (Sleep w4) = (None, w5)"
    have "check (Suc m) cfg ctx w2 =
            check_loop (Suc m) cfg ctx ps1 (replicate (length (checks cfg)) False)
              (int (length (checks cfg))) w3"
      using a(3) by (simp add: check_def)
    also have "\<dots> = check_loop m cfg ctx ps1 ready1 unready1 w5"
      using a(4,5,6,7) by (rule check_loop_round)
    finally show "Status (Suc m) cfg ctx w =
              map_option (report cfg pid mtime) (check_loop m cfg ctx ps1 ready1 unready1 w5)"
      using run [OF a(1,2)] by simp
  qed
  from c1 c2 c3 c4 show ?thesis by (intro conjI)
qed

theorem Status_ready_by_wait_loop_witness:
  "fst (getPIDFile (svc [slow_probe]) (boot linux (pid_file 4000000000 ''100''))) = (100, 4000000000)
   \<and> fst (getProcessByPID 100 4000000000 (boot linux (pid_file 4000000000 ''100''))) = Some \<lparr>Pid = 100\<rparr>
   \<and> Status 5 (svc [slow_probe]) background (boot linux (pid_file 4000000000 ''100'')) =
      map_option (report (svc [slow_probe]) 100 4000000000) (check 5 (svc [slow_probe]) background (snd (getProcessByPID 100 4000000000 (boot linux (pid_file 4000000000 ''100'')))))
   \<and> fst (range_checks background (checks (svc [slow_probe])) 0 (replicate (length (checks (svc [slow_probe]))) False)
        (int (length (checks (svc [slow_probe])))) (snd (getProcess (svc [slow_probe]) (snd (getProcessByPID 100 4000000000 (boot linux (pid_file 4000000000 ''100''))))))) = Inr ([False], 1)
   \<and> Status (Suc 4) (svc [slow_probe]) background (boot linux (pid_file 4000000000 ''100'')) =
      map_option (report (svc [slow_probe]) 100 4000000000)
        (check_loop 4 (svc [slow_probe]) background \<lparr>Pid = 100\<rparr> [False] 1 (snd (Signal \<lparr>Pid = 100\<rparr> Signal0 (Sleep (snd (range_checks background (checks (svc [slow_probe])) 0 (replicate (length (checks (svc [slow_probe]))) False)
        (int (length (checks (svc [slow_probe])))) (snd (getProcess (svc [slow_probe]) (snd (getProcessByPID 100 4000000000 (boot linux (pid_file 4000000000 ''100''))))))))))))
   \<and> outcome (Status 5 (svc [slow_probe]) background (boot linux (pid_file 4000000000 ''100''))) =
      Some \<lparr>Name = ''svc'', PID = 100, Started = 4000000000, Running = True, Ready = True\<rparr>
   \<and> fst (getProcessByPID 100 4000000000 (boot (exits_at 0) (pid_file 4000000000 ''100''))) = None
   \<and> Status 5 (svc [slow_probe]) background (boot (exits_at 0) (pid_file 4000000000 ''100'')) =
      Some (\<lparr>Name = name (svc [slow_probe]), PID = 100, Started = 4000000000, Running = False, Ready = False\<rparr>,
            snd (getProcessByPID 100 4000000000 (boot (exits_at 0) (pid_file 4000000000 ''100''))))"
proof -
  have h1: "fst (getPIDFile (svc [slow_probe]) (boot linux (pid_file 4000000000 ''100''))) = (100, 4000000000)"
    by code_simp
  have p: "fst (getProcessByPID 100 4000000000 (boot linux (pid_file 4000000000 ''100''))) = Some \<lparr>Pid = 100\<rparr>"
    by code_simp
  have g: "fst (getProcess (svc [slow_probe]) (snd (getProcessByPID 100 4000000000 (boot linux (pid_file 4000000000 ''100''))))) = Some \<lparr>Pid = 100\<rparr>"
    by code_simp
  have c: "background (tick (snd (getProcess (svc [slow_probe]) (snd (getProcessByPID 100 4000000000 (boot linux (pid_file 4000000000 ''100''))))))) = None"
    by (simp add: background_def)
  have r: "fst (range_checks background (checks (svc [slow_probe])) 0 (replicate (length (checks (svc [slow_probe]))) False)
        (int (length (checks (svc [slow_probe])))) (snd (getProcess (svc [slow_probe]) (snd (getProcessByPID 100 4000000000 (boot linux (pid_file 4000000000 ''100''))))))) = Inr ([False], 1)"
    by code_simp
  have u: "(1::int) \<le> 1" by simp
  have s: "fst (Signal \<lparr>Pid = 100\<rparr> Signal0 (Sleep (snd (range_checks background (checks (svc [slow_probe])) 0 (replicate (length (checks (svc [slow_probe]))) False)
        (int (length (checks (svc [slow_probe])))) (snd (getProcess (svc [slow_probe]) (snd (getProcessByPID 100 4000000000 (boot linux (pid_file 4000000000 ''100'')))))))))) = None"
    by code_simp
  have o: "outcome (Status 5 (svc [slow_probe]) background (boot linux (pid_file 4000000000 ''100''))) =
      Some \<lparr>Name = ''svc'', PID = 100, Started = 4000000000, Running = True, Ready = True\<rparr>"
    by code_simp
  have q: "fst (getProcessByPID 100 4000000000 (boot (exits_at 0) (pid_file 4000000000 ''100''))) = None"
    by code_simp
  have h1': "fst (getPIDFile (svc [slow_probe]) (boot (exits_at 0) (pid_file 4000000000 ''100''))) = (100, 4000000000)"
    by code_simp
  note run = Status_ready_by_wait_loop [OF h1 pairI [OF p],
      where ?ps1.0 = "\<lparr>Pid = 100\<rparr>" and ?w3.0 = "snd (getProcess (svc [slow_probe]) (snd (getProcessByPID 100 4000000000 (boot linux (pid_file 4000000000 ''100'')))))" and ctx = background
        and ?ready1.0 = "[False]" and ?unready1.0 = 1 and ?w4.0 = "snd (range_checks background (checks (svc [slow_probe])) 0 (replicate (length (checks (svc [slow_probe]))) False)
        (int (length (checks (svc [slow_probe])))) (snd (getProcess (svc [slow_probe]) (snd (getProcessByPID 100 4000000000 (boot linux (pid_file 4000000000 ''100'')))))))"
        and ?w5.0 = "snd (Signal \<lparr>Pid = 100\<rparr> Signal0 (Sleep (snd (range_checks background (checks (svc [slow_probe])) 0 (replicate (length (checks (svc [slow_probe]))) False)
        (int (length (checks (svc [slow_probe])))) (snd (getProcess (svc [slow_probe]) (snd (getProcessByPID 100 4000000000 (boot linux (pid_file 4000000000 ''100''))))))))))" and n = 5 and m = 4]
  note stop = Status_ready_by_wait_loop [OF h1' pairI [OF q], where ctx = background and n = 5]
  have nz: "(100::int) \<noteq> 0" by simp
  have sn: "Some \<lparr>Pid = 100\<rparr> \<noteq> (None :: process option)" by simp
  have c3: "Status 5 (svc [slow_probe]) background (boot linux (pid_file 4000000000 ''100'')) =
      map_option (report (svc [slow_probe]) 100 4000000000) (check 5 (svc [slow_probe]) background (snd (getProcessByPID 100 4000000000 (boot linux (pid_file 4000000000 ''100'')))))"
    using run nz sn by blast
  have c5: "Status (Suc 4) (svc [slow_probe]) background (boot linux (pid_file 4000000000 ''100'')) =
      map_option (report (svc [slow_probe]) 100 4000000000)
        (check_loop 4 (svc [slow_probe]) background \<lparr>Pid = 100\<rparr> [False] 1 (snd (Signal \<lparr>Pid = 100\<rparr> Signal0 (Sleep (snd (range_checks background (checks (svc [slow_probe])) 0 (replicate (length (checks (svc [slow_probe]))) False)
        (int (length (checks (svc [slow_probe])))) (snd (getProcess (svc [slow_probe]) (snd (getProcessByPID 100 4000000000 (boot linux (pid_file 4000000000 ''100''))))))))))))"
    using run nz sn pairI [OF g] c pairI [OF r] u pairI [OF s] by blast
  have c8: "Status 5 (svc [slow_probe]) background (boot (exits_at 0) (pid_file 4000000000 ''100'')) =
      Some (\<lparr>Name = name (svc [slow_probe]), PID = 100, Started = 4000000000, Running = False, Ready = False\<rparr>,
            snd (getProcessByPID 100 4000000000 (boot (exits_at 0) (pid_file 4000000000 ''100''))))"
    using stop nz by blast
  from h1 p c3 r c5 o q c8 show ?thesis by (intro conjI)
qed


text \<open>
  The checks are polled, not run once: with a check that is not ready at first, one call
  of \<^verbatim>\<open>Status\<close> runs the check, sleeps, signals the process, runs the check again and
  reports ready.
\<close>

theorem Status_polls_counterexample:
  "outcome (Status 5 (svc [slow_probe]) background (boot linux (pid_file 4000000000 ''100''))) =
       Some \<lparr>Name = ''svc'', PID = 100, Started = 4000000000, Running = True, Ready = True\<rparr>
   \<and> trace (final (Status 5 (svc [slow_probe]) background (boot linux (pid_file 4000000000 ''100'')))) =
       [EvSysinfo, EvFindProcess 100, EvKill 100 Signal0, EvFindProcess 100, EvKill 100 Signal0,
        EvProbe 0 (Some ErrNotReady), EvSleep, EvKill 100 Signal0, EvProbe 0 None]"
proof -
  have c1: "outcome (Status 5 (svc [slow_probe]) background (boot linux (pid_file 4000000000 ''100''))) =
       Some \<lparr>Name = ''svc'', PID = 100, Started = 4000000000, Running = True, Ready = True\<rparr>"
    by code_simp
  have c2: "trace (final (Status 5 (svc [slow_probe]) background (boot linux (pid_file 4000000000 ''100'')))) =
       [EvSysinfo, EvFindProcess 100, EvKill 100 Signal0, EvFindProcess 100, EvKill 100 Signal0,
        EvProbe 0 (Some ErrNotReady), EvSleep, EvKill 100 Signal0, EvProbe 0 None]"
    by code_simp
  show ?thesis
    by (intro conjI c1 c2)
qed

section \<open>The liveness check inside the wait loop\<close>

text \<open>
  C5, as the code has it. In a round of the loop in which the context is not done, no
  check fails hard and some check is still unsatisfied, the loop first sleeps and then
  sends the zero signal to the process (a handle obtained from \<^verbatim>\<open>getProcess\<close> has a pid of
  at least 2). If the signal fails, the loop returns the error that names the pid:
  \<^verbatim>\<open>process <pid> exited before checks were satisfied\<close>; otherwise the next round starts with
  the checks remembered so far.
\<close>

theorem check_loop_sleeps_then_verifies:
  assumes "ctx (tick w) = None"
    and "range_checks ctx (checks cfg) 0 ready unready w = (Inr (ready1, unready1), w1)"
    and "1 \<le> unready1" and "2 \<le> Pid ps"
  shows "check_loop (Suc n) cfg ctx ps ready unready w =
          (if Kill_res (env w1) (Suc (tick w1)) (Pid ps) Signal0 = None
           then check_loop n cfg ctx ps ready1 unready1 (emit (EvKill (Pid ps) Signal0) (emit EvSleep w1))
           else Some (Some (Errorf (''process '' @ Itoa (Pid ps) @ '' exited before checks were satisfied'')),
                      emit (EvKill (Pid ps) Signal0) (emit EvSleep w1)))
       \<and> new_events w1 (emit (EvKill (Pid ps) Signal0) (emit EvSleep w1)) = [EvSleep, EvKill (Pid ps) Signal0]"
  using assms
  by (auto simp: Signal_def Sleep_def tick_def new_events_def split: option.splits)


theorem check_loop_sleeps_then_verifies_witness:
  "background (tick (boot (exits_at 0) no_files)) = None
   \<and> range_checks background (checks (svc [never_ready])) 0 [False] 1 (boot (exits_at 0) no_files)
       = (Inr ([False], 1), emit (EvProbe 0 (Some ErrNotReady)) (boot (exits_at 0) no_files))
   \<and> (1::int) \<le> 1 \<and> 2 \<le> Pid \<lparr>Pid = 100\<rparr>
   \<and> outcome (check_loop (Suc 0) (svc [never_ready]) background \<lparr>Pid = 100\<rparr> [False] 1
        (boot (exits_at 0) no_files))
       = Some (Some (Errorf ''process 100 exited before checks were satisfied''))"
proof -
  have h1: "background (tick (boot (exits_at 0) no_files)) = None"
    by (simp add: background_def)
  have h2: "range_checks background (checks (svc [never_ready])) 0 [False] 1 (boot (exits_at 0) no_files)
       = (Inr ([False], 1), emit (EvProbe 0 (Some ErrNotReady)) (boot (exits_at 0) no_files))"
    by (simp add: svc_def never_ready_def run_check_def)
  have h3: "(1::int) \<le> 1" by simp
  have h4: "2 \<le> Pid \<lparr>Pid = 100\<rparr>" by simp
  have k: "Kill_res (env (emit (EvProbe 0 (Some ErrNotReady)) (boot (exits_at 0) no_files)))
             (Suc (tick (emit (EvProbe 0 (Some ErrNotReady)) (boot (exits_at 0) no_files))))
             (Pid \<lparr>Pid = 100\<rparr>) Signal0 \<noteq> None"
    by (simp add: exits_at_def linux_def boot_def)
  have i: "Itoa 100 = ''100''"
    by code_simp
  from check_loop_sleeps_then_verifies [OF h1 h2 h3 h4, of 0] k i h1 h2 show ?thesis
    by (simp add: outcome_def)
qed

text \<open>
  The order is sleep, then signal, not the reverse. The process is already gone when the
  round finds the check unsatisfied; the loop still sleeps before it looks.
\<close>

theorem sleep_precedes_liveness_check_counterexample:
  "outcome (check_loop 3 (svc [never_ready]) background \<lparr>Pid = 100\<rparr> [False] 1 (boot (exits_at 0) no_files)) =
       Some (Some (Errorf ''process 100 exited before checks were satisfied''))
   \<and> trace (final (check_loop 3 (svc [never_ready]) background \<lparr>Pid = 100\<rparr> [False] 1 (boot (exits_at 0) no_files))) =
       [EvProbe 0 (Some ErrNotReady), EvSleep, EvKill 100 Signal0]
   \<and> position EvSleep (trace (final (check_loop 3 (svc [never_ready]) background \<lparr>Pid = 100\<rparr> [False] 1 (boot (exits_at 0) no_files))))
       < position (EvKill 100 Signal0) (trace (final (check_loop 3 (svc [never_ready]) background \<lparr>Pid = 100\<rparr> [False] 1 (boot (exits_at 0) no_files))))"
proof -
  have c1: "outcome (check_loop 3 (svc [never_ready]) background \<lparr>Pid = 100\<rparr> [False] 1 (boot (exits_at 0) no_files)) =
       Some (Some (Errorf ''process 100 exited before checks were satisfied''))"
    by code_simp
  have c2: "trace (final (check_loop 3 (svc [never_ready]) background \<lparr>Pid = 100\<rparr> [False] 1 (boot (exits_at 0) no_files))) =
       [EvProbe 0 (Some ErrNotReady), EvSleep, EvKill 100 Signal0]"
    by code_simp
  have c3: "position EvSleep (trace (final (check_loop 3 (svc [never_ready]) background \<lparr>Pid = 100\<rparr> [False] 1 (boot (exits_at 0) no_files))))
       < position (EvKill 100 Signal0) (trace (final (check_loop 3 (svc [never_ready]) background \<lparr>Pid = 100\<rparr> [False] 1 (boot (exits_at 0) no_files))))"
    by code_simp
  show ?thesis
    by (intro conjI c1 c2 c3)
qed

section \<open>The wait loop remembers satisfied checks\<close>

lemma succeeded_Some: "succeeded e = Some i \<longleftrightarrow> e = EvProbe i None"
  by (cases e rule: succeeded.cases) auto

lemma probe_index_Some: "probe_index e = Some i \<longleftrightarrow> (\<exists>r. e = EvProbe i r)"
  by (cases e) auto

lemma skips_satisfied_snoc:
  "skips_satisfied (es @ [e]) =
     (skips_satisfied es
      \<and> (case probe_index e of None \<Rightarrow> True | Some i \<Rightarrow> EvProbe i None \<notin> set es))"
proof (induction es)
  case Nil
  show ?case by (cases e rule: succeeded.cases) simp_all
next
  case (Cons a es)
  show ?case
  proof (cases "succeeded a")
    case None
    then have "\<And>i. a \<noteq> EvProbe i None" using succeeded_Some by fastforce
    with None Cons.IH show ?thesis by (auto split: option.splits)
  next
    case (Some j)
    then have a: "a = EvProbe j None" by (simp add: succeeded_Some)
    show ?thesis
      using Cons.IH a
      by (cases "probe_index e") (auto simp: probe_index_Some)
  qed
qed

lemma all_succeeded_iff: "all_succeeded L es \<longleftrightarrow> (\<forall>i<L. EvProbe i None \<in> set es)"
  by (auto simp: all_succeeded_def list_all_iff)

lemma card_unready_update:
  assumes "i < L" and "\<not> ready ! i" and "length ready = L"
  shows "int (card {k. k < L \<and> \<not> ready[i := True] ! k}) = int (card {k. k < L \<and> \<not> ready ! k}) - 1"
proof -
  have fin: "finite {k. k < L \<and> \<not> ready ! k}" by simp
  have mem: "i \<in> {k. k < L \<and> \<not> ready ! k}" using assms by simp
  have "{k. k < L \<and> \<not> ready[i := True] ! k} = {k. k < L \<and> \<not> ready ! k} - {i}"
    using assms by (auto simp: nth_list_update)
  then have "card {k. k < L \<and> \<not> ready[i := True] ! k} = card {k. k < L \<and> \<not> ready ! k} - 1"
    using fin mem by simp
  moreover have "1 \<le> card {k. k < L \<and> \<not> ready ! k}"
    using fin mem by (metis One_nat_def Suc_leI card_gt_0_iff empty_iff)
  ultimately show ?thesis by simp
qed

lemma loop_inv_other:
  assumes "loop_inv L ready unready es" and "probe_index e = None"
  shows "loop_inv L ready unready (es @ [e])"
proof -
  have "\<And>i. e \<noteq> EvProbe i None" using assms(2) by auto
  moreover have "hard_error e = None" using assms(2) by (cases e) auto
  ultimately show ?thesis
    using assms by (auto simp: loop_inv_def skips_satisfied_snoc)
qed

lemma loop_inv_not_ready:
  assumes "loop_inv L ready unready es" and "\<not> ready ! i" and "i < L"
  shows "loop_inv L ready unready (es @ [EvProbe i (Some ErrNotReady)])"
  using assms by (auto simp: loop_inv_def skips_satisfied_snoc)

lemma loop_inv_success:
  assumes "loop_inv L ready unready es" and "\<not> ready ! i" and "i < L"
  shows "loop_inv L (ready[i := True]) (unready - 1) (es @ [EvProbe i None])"
proof -
  have len: "length ready = L" using assms(1) by (simp add: loop_inv_def)
  have c: "int (card {k. k < L \<and> \<not> ready[i := True] ! k}) = unready - 1"
    using card_unready_update [OF assms(3) assms(2) len] assms(1) by (simp add: loop_inv_def)
  have "EvProbe i None \<notin> set es" using assms by (auto simp: loop_inv_def)
  then show ?thesis
    using assms c by (auto simp: loop_inv_def skips_satisfied_snoc nth_list_update)
qed

lemma loop_inv_abort:
  assumes "loop_inv L ready unready es" and "\<not> ready ! i" and "i < L" and "err \<noteq> ErrNotReady"
  shows "aborted L err (es @ [EvProbe i (Some err)])"
  using assms by (auto simp: loop_inv_def aborted_def)

lemma range_checks_inv:
  assumes "loop_inv L ready unready es" and "trace w = t0 @ es" and "i + length cs = L"
    and "range_checks ctx cs i ready unready w = (res, w')"
  shows "\<exists>es'. trace w' = t0 @ es'
           \<and> (case res of Inl err \<Rightarrow> aborted L err es'
               | Inr (ready1, unready1) \<Rightarrow> loop_inv L ready1 unready1 es')"
  using assms
proof (induction cs arbitrary: i ready unready w es)
  case Nil
  then show ?case by auto
next
  case (Cons c cs)
  have iL: "i < L" and rest: "Suc i + length cs = L" using Cons.prems(3) by simp_all
  show ?case
  proof (cases "ready ! i")
    case True
    with Cons.prems(4) have "range_checks ctx cs (Suc i) ready unready w = (res, w')" by simp
    from Cons.IH [OF Cons.prems(1) Cons.prems(2) rest this] show ?thesis .
  next
    case False
    let ?r = "c ctx (tick w)"
    let ?w1 = "emit (EvProbe i ?r) w"
    have rc: "run_check c i ctx w = (?r, ?w1)" by (simp add: run_check_def)
    have tr: "trace ?w1 = t0 @ (es @ [EvProbe i ?r])" using Cons.prems(2) by simp
    show ?thesis
    proof (cases ?r)
      case None
      with False rc Cons.prems(4)
      have run: "range_checks ctx cs (Suc i) (ready[i := True]) (unready - 1) ?w1 = (res, w')"
        by simp
      have inv: "loop_inv L (ready[i := True]) (unready - 1) (es @ [EvProbe i ?r])"
        using loop_inv_success [OF Cons.prems(1) False iL] None by simp
      from Cons.IH [OF inv tr rest run] show ?thesis .
    next
      case (Some err)
      show ?thesis
      proof (cases "err = ErrNotReady")
        case True
        with Some False rc Cons.prems(4)
        have run: "range_checks ctx cs (Suc i) ready unready ?w1 = (res, w')" by simp
        have inv: "loop_inv L ready unready (es @ [EvProbe i ?r])"
          using loop_inv_not_ready [OF Cons.prems(1) False iL] Some True by simp
        from Cons.IH [OF inv tr rest run] show ?thesis .
      next
        case hard: False
        with Some False rc Cons.prems(4) have res: "res = Inl err" "w' = ?w1"
          by (cases err; simp)+
        have "aborted L err (es @ [EvProbe i ?r])"
          using loop_inv_abort [OF Cons.prems(1) False iL hard] Some by simp
        with res tr show ?thesis by auto
      qed
    qed
  qed
qed

lemma loop_inv_unready_pos:
  assumes "loop_inv L ready unready es" and "1 \<le> unready"
  shows "\<not> all_succeeded L es"
proof -
  have u: "unready = int (card {i. i < L \<and> \<not> ready ! i})"
    using assms(1) by (simp add: loop_inv_def)
  have "{i. i < L \<and> \<not> ready ! i} \<noteq> {}"
  proof
    assume "{i. i < L \<and> \<not> ready ! i} = {}"
    then have "unready = 0" using u by simp
    with assms(2) show False by simp
  qed
  then obtain i where "i < L" "\<not> ready ! i" by auto
  then have "EvProbe i None \<notin> set es" using assms(1) by (auto simp: loop_inv_def)
  with \<open>i < L\<close> show ?thesis by (auto simp: all_succeeded_iff)
qed

lemma loop_inv_unready_zero:
  assumes "loop_inv L ready unready es" and "unready < 1"
  shows "all_succeeded L es"
proof -
  have "card {i. i < L \<and> \<not> ready ! i} = 0" using assms by (auto simp: loop_inv_def)
  then have "{i. i < L \<and> \<not> ready ! i} = {}" by simp
  then have "\<forall>i<L. ready ! i" by auto
  with assms(1) show ?thesis by (auto simp: all_succeeded_iff loop_inv_def)
qed

lemma post_of_failure:
  assumes "loop_inv L ready unready es" and "L \<noteq> 0 \<longrightarrow> 1 \<le> unready"
  shows "loop_post L (Some err) es"
proof -
  have "L \<noteq> 0 \<longrightarrow> \<not> all_succeeded L es"
    using assms loop_inv_unready_pos by blast
  with assms(1) show ?thesis by (auto simp: loop_post_def loop_inv_def)
qed

lemma post_of_success:
  assumes "loop_inv L ready unready es" and "unready < 1"
  shows "loop_post L None es"
  using assms loop_inv_unready_zero [OF assms] by (auto simp: loop_post_def loop_inv_def)

lemma post_of_abort:
  assumes "aborted L err es"
  shows "loop_post L (Some err) es"
proof -
  obtain es0 j where es: "es = es0 @ [EvProbe j (Some err)]" and hard: "err \<noteq> ErrNotReady"
    and j: "j < L" and nj: "EvProbe j None \<notin> set es0" and sk: "skips_satisfied es0"
    and nh: "\<forall>e\<in>set es0. hard_error e = None"
    using assms by (auto simp: aborted_def)
  have "EvProbe j None \<notin> set es" using es nj by simp
  with j have na: "\<not> all_succeeded L es" by (auto simp: all_succeeded_iff)
  have "skips_satisfied es" using es sk nj by (simp add: skips_satisfied_snoc)
  moreover have "\<forall>e\<in>set es. hard_error e \<noteq> None \<longrightarrow> Some err = hard_error e \<and> last es = e"
    using es nh hard by auto
  ultimately show ?thesis using na by (simp add: loop_post_def)
qed

lemma loop_inv_init:
  "loop_inv L (replicate L False) (int L) []"
proof -
  have "{i. i < L \<and> \<not> replicate L False ! i} = {..<L}" by auto
  then have "card {i. i < L \<and> \<not> replicate L False ! i} = L" by simp
  then show ?thesis by (simp add: loop_inv_def)
qed

lemma check_loop_rounds:
  "check_loop n cfg ctx ps ready unready w =
     (case check_rounds n cfg ctx ps ready unready w of Inl x \<Rightarrow> Some x | Inr s \<Rightarrow> None)"
proof (induction n arbitrary: ready unready w)
  case 0
  show ?case by simp
next
  case (Suc n)
  show ?case
    by (simp add: Suc.IH split: option.splits prod.splits sum.splits)
qed

lemma check_rounds_post:
  assumes "loop_inv (length (checks cfg)) ready unready es" and "trace w = t0 @ es"
    and "length (checks cfg) \<noteq> 0 \<longrightarrow> 1 \<le> unready"
  shows "case check_rounds n cfg ctx ps ready unready w of
           Inl (r, w') \<Rightarrow> \<exists>es'. trace w' = t0 @ es' \<and> loop_post (length (checks cfg)) r es'
         | Inr (ready', unready', w') \<Rightarrow>
             \<exists>es'. trace w' = t0 @ es' \<and> loop_inv (length (checks cfg)) ready' unready' es'
                  \<and> (1 \<le> unready \<or> 0 < n \<longrightarrow> 1 \<le> unready')"
  using assms
proof (induction n arbitrary: ready unready w es)
  case 0
  then show ?case by auto
next
  case (Suc n)
  let ?L = "length (checks cfg)"
  show ?case
  proof (cases "ctx (tick w)")
    case (Some err)
    then have "check_rounds (Suc n) cfg ctx ps ready unready w = Inl (Some err, w)" by simp
    with Suc.prems post_of_failure show ?thesis by auto
  next
    case None
    obtain res w1 where rc: "range_checks ctx (checks cfg) 0 ready unready w = (res, w1)"
      by (metis surj_pair)
    have "0 + length (checks cfg) = ?L" by simp
    from range_checks_inv [OF Suc.prems(1) Suc.prems(2) this rc]
    obtain es1 where t1: "trace w1 = t0 @ es1"
      and c1: "case res of Inl err \<Rightarrow> aborted ?L err es1
               | Inr (ready1, unready1) \<Rightarrow> loop_inv ?L ready1 unready1 es1"
      by blast
    show ?thesis
    proof (cases res)
      case (Inl err)
      with None rc have "check_rounds (Suc n) cfg ctx ps ready unready w = Inl (Some err, w1)"
        by simp
      moreover from Inl c1 have "loop_post ?L (Some err) es1" by (simp add: post_of_abort)
      ultimately show ?thesis using t1 by auto
    next
      case (Inr p)
      obtain ready1 unready1 where p: "p = (ready1, unready1)" by (cases p)
      with Inr c1 have inv1: "loop_inv ?L ready1 unready1 es1" by simp
      show ?thesis
      proof (cases "unready1 < 1")
        case True
        with None rc Inr p have "check_rounds (Suc n) cfg ctx ps ready unready w = Inl (None, w1)"
          by simp
        with post_of_success [OF inv1 True] t1 show ?thesis by auto
      next
        case False
        then have pos: "?L \<noteq> 0 \<longrightarrow> 1 \<le> unready1" and pos1: "1 \<le> unready1" by simp_all
        obtain s w2 where sg: "Signal ps Signal0 (Sleep w1) = (s, w2)" by (metis surj_pair)
        have "\<exists>es2. trace w2 = t0 @ es2 \<and> loop_inv ?L ready1 unready1 es2"
        proof (cases "Pid ps = - 1 \<or> Pid ps = 0")
          case True
          with sg have "w2 = Sleep w1" by (auto simp: Signal_def)
          then have "trace w2 = t0 @ (es1 @ [EvSleep])" using t1 by (simp add: Sleep_def)
          moreover have "loop_inv ?L ready1 unready1 (es1 @ [EvSleep])"
            using inv1 by (rule loop_inv_other) simp
          ultimately show ?thesis by blast
        next
          case False
          with sg have "w2 = emit (EvKill (Pid ps) Signal0) (Sleep w1)" by (auto simp: Signal_def)
          then have "trace w2 = t0 @ ((es1 @ [EvSleep]) @ [EvKill (Pid ps) Signal0])"
            using t1 by (simp add: Sleep_def)
          moreover have "loop_inv ?L ready1 unready1 ((es1 @ [EvSleep]) @ [EvKill (Pid ps) Signal0])"
            using inv1 by (intro loop_inv_other) simp_all
          ultimately show ?thesis by blast
        qed
        then obtain es2 where t2: "trace w2 = t0 @ es2" and inv2: "loop_inv ?L ready1 unready1 es2"
          by blast
        show ?thesis
        proof (cases s)
          case None' : None
          with None rc Inr p False sg
          have eq: "check_rounds (Suc n) cfg ctx ps ready unready w
                  = check_rounds n cfg ctx ps ready1 unready1 w2" by simp
          from Suc.IH [OF inv2 t2 pos] pos1 show ?thesis
            unfolding eq by (auto split: sum.splits)
        next
          case (Some e)
          with None rc Inr p False sg
          have "check_rounds (Suc n) cfg ctx ps ready unready w
              = Inl (Some (Errorf (''process '' @ Itoa (Pid ps)
                                      @ '' exited before checks were satisfied'')), w2)"
            by simp
          with post_of_failure [OF inv2 pos] t2 show ?thesis by auto
        qed
      qed
    qed
  qed
qed

text \<open>
  C9, as the code has it. \<open>check_loop\<close> returns what the loop returns within \<open>n\<close>
  rounds, and nothing when the loop is still going then. When the loop has returned: no
  check was run again after it had reported success; if the loop returned nil, every
  configured check has reported success; if at least one check is configured and every
  check has reported success, the loop returned nil; and if a check failed hard, that
  was the last thing the loop did and its error is what the loop returned. When the loop
  is still going after \<open>n\<close> rounds: no check was run again after it had reported success,
  no check has failed hard, and, after at least one round, not every check has reported
  success. So the loop returns in the very round in which the last check reports
  success or a check fails hard.
\<close>

theorem wait_loop_remembers_successes:
  "check_loop n cfg ctx ps (replicate (length (checks cfg)) False) (int (length (checks cfg))) w =
     (case check_rounds n cfg ctx ps (replicate (length (checks cfg)) False)
             (int (length (checks cfg))) w of
        Inl x \<Rightarrow> Some x
      | Inr s \<Rightarrow> None)
   \<and> (case check_rounds n cfg ctx ps (replicate (length (checks cfg)) False)
             (int (length (checks cfg))) w of
        Inl (r, w') \<Rightarrow>
          skips_satisfied (new_events w w')
          \<and> (r = None \<longrightarrow> all_succeeded (length (checks cfg)) (new_events w w'))
          \<and> (checks cfg \<noteq> [] \<longrightarrow> all_succeeded (length (checks cfg)) (new_events w w')
                \<longrightarrow> r = None)
          \<and> (\<forall>e\<in>set (new_events w w'). hard_error e \<noteq> None \<longrightarrow>
                r = hard_error e \<and> last (new_events w w') = e)
      | Inr (ready, unready, w') \<Rightarrow>
          skips_satisfied (new_events w w')
          \<and> (\<forall>e\<in>set (new_events w w'). hard_error e = None)
          \<and> (0 < n \<longrightarrow> \<not> all_succeeded (length (checks cfg)) (new_events w w')))"
proof -
  let ?L = "length (checks cfg)"
  have t: "trace w = trace w @ []" by simp
  have pos: "?L \<noteq> 0 \<longrightarrow> 1 \<le> int ?L"
    by (cases "checks cfg") simp_all
  note post = check_rounds_post [OF loop_inv_init t pos, of n ctx ps]
  have second: "case check_rounds n cfg ctx ps (replicate ?L False) (int ?L) w of
        Inl (r, w') \<Rightarrow>
          skips_satisfied (new_events w w')
          \<and> (r = None \<longrightarrow> all_succeeded ?L (new_events w w'))
          \<and> (checks cfg \<noteq> [] \<longrightarrow> all_succeeded ?L (new_events w w') \<longrightarrow> r = None)
          \<and> (\<forall>e\<in>set (new_events w w'). hard_error e \<noteq> None \<longrightarrow>
                r = hard_error e \<and> last (new_events w w') = e)
      | Inr (ready, unready, w') \<Rightarrow>
          skips_satisfied (new_events w w')
          \<and> (\<forall>e\<in>set (new_events w w'). hard_error e = None)
          \<and> (0 < n \<longrightarrow> \<not> all_succeeded ?L (new_events w w'))"
  proof (cases "check_rounds n cfg ctx ps (replicate ?L False) (int ?L) w")
    case (Inl x)
    obtain r w' where x: "x = (r, w')" by (cases x)
    with Inl post obtain es where "trace w' = trace w @ es" and "loop_post ?L r es" by auto
    moreover then have "new_events w w' = es" by (simp add: new_events_def)
    ultimately show ?thesis using Inl x by (simp add: loop_post_def)
  next
    case (Inr s)
    obtain ready unready w' where s: "s = (ready, unready, w')" by (cases s)
    with Inr post obtain es where tr: "trace w' = trace w @ es"
      and inv: "loop_inv ?L ready unready es" and up: "0 < n \<longrightarrow> 1 \<le> unready" by auto
    from tr have ne: "new_events w w' = es" by (simp add: new_events_def)
    have "0 < n \<longrightarrow> \<not> all_succeeded ?L es"
      using up loop_inv_unready_pos [OF inv] by blast
    with inv ne Inr s show ?thesis by (simp add: loop_inv_def)
  qed
  show ?thesis
    using check_loop_rounds [of n cfg ctx ps "replicate ?L False" "int ?L" w] second
    by blast
qed


theorem wait_loop_remembers_successes_witness:
  "(\<exists>w'. check_loop 5 (svc [ok_probe, slow_probe]) background \<lparr>Pid = 100\<rparr>
            (replicate (length (checks (svc [ok_probe, slow_probe]))) False)
            (int (length (checks (svc [ok_probe, slow_probe])))) (boot linux no_files) = Some (None, w')
         \<and> skips_satisfied (new_events (boot linux no_files) w')
         \<and> all_succeeded (length (checks (svc [ok_probe, slow_probe]))) (new_events (boot linux no_files) w')
         \<and> new_events (boot linux no_files) w' =
             [EvProbe 0 None, EvProbe 1 (Some ErrNotReady), EvSleep, EvKill 100 Signal0,
              EvProbe 1 (Some ErrNotReady), EvSleep, EvKill 100 Signal0, EvProbe 1 None])
   \<and> (\<exists>w'. check_loop 5 (svc [ok_probe, broken_probe, ok_probe]) background \<lparr>Pid = 100\<rparr>
            (replicate (length (checks (svc [ok_probe, broken_probe, ok_probe]))) False)
            (int (length (checks (svc [ok_probe, broken_probe, ok_probe])))) (boot linux no_files)
          = Some (Some (SysErr ''dial tcp: address x: missing port in address''), w')
         \<and> new_events (boot linux no_files) w' =
             [EvProbe 0 None, EvProbe 1 (Some (SysErr ''dial tcp: address x: missing port in address''))])"
proof -
  let ?A = "check_rounds 5 (svc [ok_probe, slow_probe]) background \<lparr>Pid = 100\<rparr>
            (replicate (length (checks (svc [ok_probe, slow_probe]))) False)
            (int (length (checks (svc [ok_probe, slow_probe])))) (boot linux no_files)"
  let ?B = "check_rounds 5 (svc [ok_probe, broken_probe, ok_probe]) background \<lparr>Pid = 100\<rparr>
            (replicate (length (checks (svc [ok_probe, broken_probe, ok_probe]))) False)
            (int (length (checks (svc [ok_probe, broken_probe, ok_probe])))) (boot linux no_files)"
  have a1: "isl ?A" by code_simp
  have a2: "fst (projl ?A) = None" by code_simp
  have a3: "new_events (boot linux no_files) (snd (projl ?A)) =
             [EvProbe 0 None, EvProbe 1 (Some ErrNotReady), EvSleep, EvKill 100 Signal0,
              EvProbe 1 (Some ErrNotReady), EvSleep, EvKill 100 Signal0, EvProbe 1 None]"
    by code_simp
  have b1: "isl ?B" by code_simp
  have b2: "fst (projl ?B) = Some (SysErr ''dial tcp: address x: missing port in address'')"
    by code_simp
  have b3: "new_events (boot linux no_files) (snd (projl ?B)) =
             [EvProbe 0 None, EvProbe 1 (Some (SysErr ''dial tcp: address x: missing port in address''))]"
    by code_simp
  from a1 a2 obtain wA where A: "?A = Inl (None, wA)"
    by (cases ?A) (auto simp: prod_eq_iff)
  from b1 b2 obtain wB
    where B: "?B = Inl (Some (SysErr ''dial tcp: address x: missing port in address''), wB)"
    by (cases ?B) (auto simp: prod_eq_iff)
  have a3': "new_events (boot linux no_files) wA =
             [EvProbe 0 None, EvProbe 1 (Some ErrNotReady), EvSleep, EvKill 100 Signal0,
              EvProbe 1 (Some ErrNotReady), EvSleep, EvKill 100 Signal0, EvProbe 1 None]"
    using a3 by (simp only: A sum.sel snd_conv)
  have b3': "new_events (boot linux no_files) wB =
             [EvProbe 0 None, EvProbe 1 (Some (SysErr ''dial tcp: address x: missing port in address''))]"
    using b3 by (simp only: B sum.sel snd_conv)
  have first: "\<exists>w'. check_loop 5 (svc [ok_probe, slow_probe]) background \<lparr>Pid = 100\<rparr>
            (replicate (length (checks (svc [ok_probe, slow_probe]))) False)
            (int (length (checks (svc [ok_probe, slow_probe])))) (boot linux no_files) = Some (None, w')
         \<and> skips_satisfied (new_events (boot linux no_files) w')
         \<and> all_succeeded (length (checks (svc [ok_probe, slow_probe]))) (new_events (boot linux no_files) w')
         \<and> new_events (boot linux no_files) w' =
             [EvProbe 0 None, EvProbe 1 (Some ErrNotReady), EvSleep, EvKill 100 Signal0,
              EvProbe 1 (Some ErrNotReady), EvSleep, EvKill 100 Signal0, EvProbe 1 None]"
    using wait_loop_remembers_successes
            [of 5 "svc [ok_probe, slow_probe]" background "\<lparr>Pid = 100\<rparr>" "boot linux no_files"]
          a3'
    by (simp add: A)
  have second: "\<exists>w'. check_loop 5 (svc [ok_probe, broken_probe, ok_probe]) background \<lparr>Pid = 100\<rparr>
            (replicate (length (checks (svc [ok_probe, broken_probe, ok_probe]))) False)
            (int (length (checks (svc [ok_probe, broken_probe, ok_probe])))) (boot linux no_files)
          = Some (Some (SysErr ''dial tcp: address x: missing port in address''), w')
         \<and> new_events (boot linux no_files) w' =
             [EvProbe 0 None, EvProbe 1 (Some (SysErr ''dial tcp: address x: missing port in address''))]"
    using wait_loop_remembers_successes
            [of 5 "svc [ok_probe, broken_probe, ok_probe]" background "\<lparr>Pid = 100\<rparr>"
               "boot linux no_files"]
          b3'
    by (simp add: B)
  from first second show ?thesis by (rule conjI)
qed

text \<open>
  With no check configured every configured check has reported success, vacuously; the
  loop still asks the context first and returns its error.
\<close>

theorem no_checks_cancelled_counterexample:
  "outcome (check_loop 3 (svc []) cancelled \<lparr>Pid = 100\<rparr> (replicate (length (checks (svc []))) False)
        (int (length (checks (svc [])))) (boot linux no_files)) =
       Some (Some Canceled)
   \<and> all_succeeded (length (checks (svc [])))
       (new_events (boot linux no_files) (final (check_loop 3 (svc []) cancelled \<lparr>Pid = 100\<rparr> (replicate (length (checks (svc []))) False)
        (int (length (checks (svc [])))) (boot linux no_files))))
   \<and> outcome (check 3 (svc []) cancelled (boot linux (pid_file 4000000000 ''100''))) =
       Some (Some Canceled)"
proof -
  have c1: "outcome (check_loop 3 (svc []) cancelled \<lparr>Pid = 100\<rparr> (replicate (length (checks (svc []))) False)
        (int (length (checks (svc [])))) (boot linux no_files)) =
       Some (Some Canceled)"
    by code_simp
  have c2: "all_succeeded (length (checks (svc [])))
       (new_events (boot linux no_files) (final (check_loop 3 (svc []) cancelled \<lparr>Pid = 100\<rparr> (replicate (length (checks (svc []))) False)
        (int (length (checks (svc [])))) (boot linux no_files))))"
    by code_simp
  have c3: "outcome (check 3 (svc []) cancelled (boot linux (pid_file 4000000000 ''100''))) =
       Some (Some Canceled)"
    by code_simp
  show ?thesis
    by (intro conjI c1 c2 c3)
qed

section \<open>Where the code departs from its own intent\<close>

lemma getProcess_guard:
  "fst (fst (getPIDFile cfg w)) < 2 \<Longrightarrow> getProcess cfg w = (None, w)"
  using getPIDFile_world [of cfg w]
  by (cases "getPIDFile cfg w") (auto simp: getProcess_def)

lemma getPIDFile_garbled:
  "fs w (pidFile cfg) = Regular mtime data \<Longrightarrow> Atoi data = Inl e
     \<Longrightarrow> getPIDFile cfg w = ((0, mtime), w)"
  by (simp add: getPIDFile_def)

lemma getPIDFile_unreadable:
  "fs w (pidFile cfg) = Unreadable mtime \<Longrightarrow> getPIDFile cfg w = ((0, mtime), w)"
  by (simp add: getPIDFile_def)

lemma kill_released:
  "kill cfg \<lparr>Pid = - 1\<rparr> w = (Some (SysErr ''os: process already released''), w)"
  by (simp add: kill_def Kill_def Signal_def)

text \<open>
  C1. \<^verbatim>\<open>start\<close> launches pid 100, records it, releases the handle and waits; the check
  never becomes ready and the deadline passes. \<^verbatim>\<open>start\<close> returns the deadline error after
  calling \<^verbatim>\<open>cfg.kill(cmd.Process)\<close>, but on the released handle: no \<^verbatim>\<open>SIGKILL\<close> is sent and
  nothing is waited for (the trace ends with the zero signal of the loop). The pid file
  still holds 100, and the service resolves as running.
\<close>

theorem start_timeout_leaves_process_running:
  "outcome (start 5 (svc [never_ready]) (deadline 8) (boot linux no_files)) = Some (Some DeadlineExceeded)
   \<and> trace (final (start 5 (svc [never_ready]) (deadline 8) (boot linux no_files))) =
       [EvCmdStart, EvMkdirAll ''svc.pid'', EvWriteFile ''svc.pid'' ''100'', EvSysinfo,
        EvFindProcess 100, EvKill 100 Signal0, EvProbe 0 (Some ErrNotReady), EvSleep,
        EvKill 100 Signal0]
   \<and> fs (final (start 5 (svc [never_ready]) (deadline 8) (boot linux no_files))) ''svc.pid'' = Regular 5000000002 ''100''
   \<and> fst (running (svc [never_ready]) (final (start 5 (svc [never_ready]) (deadline 8) (boot linux no_files)))) = True"
proof -
  have c1: "outcome (start 5 (svc [never_ready]) (deadline 8) (boot linux no_files)) = Some (Some DeadlineExceeded)"
    by code_simp
  have c2: "trace (final (start 5 (svc [never_ready]) (deadline 8) (boot linux no_files))) =
       [EvCmdStart, EvMkdirAll ''svc.pid'', EvWriteFile ''svc.pid'' ''100'', EvSysinfo,
        EvFindProcess 100, EvKill 100 Signal0, EvProbe 0 (Some ErrNotReady), EvSleep,
        EvKill 100 Signal0]"
    by code_simp
  have c3: "fs (final (start 5 (svc [never_ready]) (deadline 8) (boot linux no_files))) ''svc.pid'' = Regular 5000000002 ''100''"
    by code_simp
  have c4: "fst (running (svc [never_ready]) (final (start 5 (svc [never_ready]) (deadline 8) (boot linux no_files)))) = True"
    by code_simp
  show ?thesis
    by (intro conjI c1 c2 c3 c4)
qed

text \<open>
  C2. With pid 1 in the pid file, \<^verbatim>\<open>getProcess\<close> (used by \<^verbatim>\<open>start\<close>, \<^verbatim>\<open>stop\<close> and
  \<^verbatim>\<open>check\<close>) answers none without any platform call, but \<^verbatim>\<open>Status\<close> calls
  \<^verbatim>\<open>getProcessByPID\<close> directly: it sends the zero signal to pid 1 and reports the service
  as running.
\<close>

theorem Status_signals_pid_1:
  "outcome (Status 5 (svc []) background (boot linux (pid_file 4000000000 ''1''))) =
       Some \<lparr>Name = ''svc'', PID = 1, Started = 4000000000, Running = True, Ready = False\<rparr>
   \<and> trace (final (Status 5 (svc []) background (boot linux (pid_file 4000000000 ''1'')))) =
       [EvSysinfo, EvFindProcess 1, EvKill 1 Signal0]
   \<and> fst (getProcess (svc []) (boot linux (pid_file 4000000000 ''1''))) = None
   \<and> trace (snd (getProcess (svc []) (boot linux (pid_file 4000000000 ''1'')))) = []"
proof -
  have c1: "outcome (Status 5 (svc []) background (boot linux (pid_file 4000000000 ''1''))) =
       Some \<lparr>Name = ''svc'', PID = 1, Started = 4000000000, Running = True, Ready = False\<rparr>"
    by code_simp
  have c2: "trace (final (Status 5 (svc []) background (boot linux (pid_file 4000000000 ''1'')))) =
       [EvSysinfo, EvFindProcess 1, EvKill 1 Signal0]"
    by code_simp
  have c3: "fst (getProcess (svc []) (boot linux (pid_file 4000000000 ''1''))) = None"
    by code_simp
  have c4: "trace (snd (getProcess (svc []) (boot linux (pid_file 4000000000 ''1'')))) = []"
    by code_simp
  show ?thesis
    by (intro conjI c1 c2 c3 c4)
qed

text \<open>
  C4. A pid file with contents that are not a number, or one that cannot be read after
  \<^verbatim>\<open>Stat\<close>, yields pid 0 and no error, but with the modification time of the file, not the
  zero time: \<^verbatim>\<open>Status\<close> reports pid 0, not running, and a non-zero \<^verbatim>\<open>Started\<close>.
\<close>

theorem garbled_pid_file_keeps_mtime:
  "fst (getPIDFile (svc []) (boot linux (pid_file 4000000000 ''abc''))) = (0, 4000000000)
   \<and> 4000000000 \<noteq> zero_time
   \<and> outcome (Status 5 (svc []) background (boot linux (pid_file 4000000000 ''abc''))) =
       Some \<lparr>Name = ''svc'', PID = 0, Started = 4000000000, Running = False, Ready = False\<rparr>
   \<and> fst (getPIDFile (svc []) (boot linux (no_files(''svc.pid'' := Unreadable 4000000000)))) =
       (0, 4000000000)"
proof -
  have c1: "fst (getPIDFile (svc []) (boot linux (pid_file 4000000000 ''abc''))) = (0, 4000000000)"
    by code_simp
  have c2: "4000000000 \<noteq> zero_time"
    by code_simp
  have c3: "outcome (Status 5 (svc []) background (boot linux (pid_file 4000000000 ''abc''))) =
       Some \<lparr>Name = ''svc'', PID = 0, Started = 4000000000, Running = False, Ready = False\<rparr>"
    by code_simp
  have c4: "fst (getPIDFile (svc []) (boot linux (no_files(''svc.pid'' := Unreadable 4000000000)))) =
       (0, 4000000000)"
    by code_simp
  show ?thesis
    by (intro conjI c1 c2 c3 c4)
qed

end
